theory Spec2Isabelle
  imports Main "HOL-Library.AList" "HOL-Library.List_Lexorder" "HOL-Library.Char_ord"
begin

section \<open>Exceptions and configuration\<close>

text \<open>
  The development embeds \<^verbatim>\<open>migrate-discussions.py\<close>. A Python exception is a value of
  \<open>error\<close>; a function that may raise returns \<open>error + 'a\<close> with \<open>Inl\<close> for the
  exception. \<open>PlatformError\<close> stands for whatever an external collaborator (the
  destination client, the date parser) raises.
\<close>

datatype error =
    AssertionError
  | TypeError
  | KeyError
  | UnboundLocalError
  | RuntimeError
  | PlatformError

text \<open>
  The module \<^verbatim>\<open>config\<close> is not among the sources, so its tables are a parameter. A Python
  dict is an association list in insertion order (the order in which the code iterates
  over it); a lookup is \<open>map_of\<close>. A label table maps a value to a label or to \<^verbatim>\<open>None\<close>.
\<close>

record config =
  KNOWN_REPO_MAPPING :: "(string \<times> string) list"
  KNOWN_ISSUES_COUNT_MAPPING :: "(string \<times> int) list"
  USER_MAPPING :: "(string \<times> string) list"
  STATE_MAPPING :: "(string \<times> string option) list"
  PRIORITY_MAPPING :: "(string \<times> string option) list"
  KIND_MAPPING :: "(string \<times> string option) list"
  COMPONENT_MAPPING :: "(string \<times> string option) list"
  OPEN_ISSUE_OR_PULL_REQUEST_STATES :: "string list"

text \<open>The command line arguments the discussion engine reads.\<close>

record args =
  bitbucket_repository :: string
  github_repository :: string
  skip_attachments :: bool

section \<open>Characters and numbers\<close>

text \<open>
  A body is a \<open>string\<close>; a \<open>char\<close> is read as the code point of the same number, so
  the model covers text over U+0000 to U+00FF. The classes are those of Python's \<^verbatim>\<open>re\<close>
  on \<^verbatim>\<open>str\<close> patterns, cut to that range: \<^verbatim>\<open>\d\<close> is the decimal digits, \<^verbatim>\<open>\w\<close> is
  \<^verbatim>\<open>str.isalnum\<close> or the underscore, \<^verbatim>\<open>\s\<close> is \<^verbatim>\<open>str.isspace\<close>.
\<close>

definition is_digit :: "char \<Rightarrow> bool" where
  "is_digit c = (c \<in> set ''0123456789'')"

definition is_ascii_letter :: "char \<Rightarrow> bool" where
  "is_ascii_letter c =
     (c \<in> set ''abcdefghijklmnopqrstuvwxyzABCDEFGHIJKLMNOPQRSTUVWXYZ'')"

definition is_latin1_alnum :: "char \<Rightarrow> bool" where
  "is_latin1_alnum c =
     (let n = (of_char c :: nat) in
      n \<in> {170, 178, 179, 181, 185, 186, 188, 189, 190} \<or>
      (192 \<le> n \<and> n \<le> 214) \<or> (216 \<le> n \<and> n \<le> 246) \<or> (248 \<le> n \<and> n \<le> 255))"

definition is_word :: "char \<Rightarrow> bool" where
  "is_word c = (is_ascii_letter c \<or> is_digit c \<or> c = CHR ''_'' \<or> is_latin1_alnum c)"

definition is_space :: "char \<Rightarrow> bool" where
  "is_space c =
     (let n = (of_char c :: nat) in
      (9 \<le> n \<and> n \<le> 13) \<or> (28 \<le> n \<and> n \<le> 32) \<or> n = 133 \<or> n = 160)"

definition newline :: char where
  "newline = CHR 0x0A"

text \<open>\<^verbatim>\<open>str(n)\<close> for an integer and \<^verbatim>\<open>int(s)\<close> for a string of decimal digits.\<close>

fun str_nat :: "nat \<Rightarrow> string" where
  "str_nat n =
     (if n < 10 then [char_of (48 + n)] else str_nat (n div 10) @ [char_of (48 + n mod 10)])"

definition str_int :: "int \<Rightarrow> string" where
  "str_int i = (if i < 0 then CHR ''-'' # str_nat (nat (- i)) else str_nat (nat i))"

definition digit_val :: "char \<Rightarrow> int" where
  "digit_val c = int (of_char c) - 48"

definition int_of_digits :: "string \<Rightarrow> int" where
  "int_of_digits s = foldl (\<lambda>a c. 10 * a + digit_val c) 0 s"

text \<open>\<^verbatim>\<open>'{}'.format(x)\<close> for a value that may be \<^verbatim>\<open>None\<close>.\<close>

definition format_opt :: "string option \<Rightarrow> string" where
  "format_opt x = (case x of None \<Rightarrow> ''None'' | Some s \<Rightarrow> s)"

section \<open>Regular expression substitution\<close>

text \<open>
  A match object: \<^verbatim>\<open>group(0)\<close> is the matched text, a group that took no part in the
  match is \<^verbatim>\<open>None\<close>.
\<close>

record re_match =
  group0 :: string
  group1 :: "string option"
  group2 :: "string option"

text \<open>
  \<^verbatim>\<open>pattern.sub(repl, body)\<close> with a function \<open>repl\<close>. A matcher is given the character
  before the position (for a lookbehind; \<open>None\<close> at the start of the body) and the text
  from the position on, and returns the leftmost-first match that starts there. The scan
  tries each position from the left; after a match it goes on behind the matched text,
  which the first argument counts down. No pattern of the program matches the empty
  string, so the case of an empty match is not modelled.
\<close>

fun re_sub ::
  "(char option \<Rightarrow> string \<Rightarrow> re_match option) \<Rightarrow> (re_match \<Rightarrow> string) \<Rightarrow>
   nat \<Rightarrow> char option \<Rightarrow> string \<Rightarrow> string" where
  "re_sub m r k prev [] = []"
| "re_sub m r (Suc k) prev (c # cs) = re_sub m r k (Some c) cs"
| "re_sub m r 0 prev (c # cs) =
     (case m prev (c # cs) of
        None \<Rightarrow> c # re_sub m r 0 (Some c) cs
      | Some g \<Rightarrow> r g @ re_sub m r (length (group0 g) - 1) (Some c) cs)"

text \<open>The same scan with a replacement function that may raise: the first exception ends it.\<close>

fun re_sub_raising ::
  "(char option \<Rightarrow> string \<Rightarrow> re_match option) \<Rightarrow> (re_match \<Rightarrow> error + string) \<Rightarrow>
   nat \<Rightarrow> char option \<Rightarrow> string \<Rightarrow> error + string" where
  "re_sub_raising m r k prev [] = Inr []"
| "re_sub_raising m r (Suc k) prev (c # cs) = re_sub_raising m r k (Some c) cs"
| "re_sub_raising m r 0 prev (c # cs) =
     (case m prev (c # cs) of
        None \<Rightarrow>
          (case re_sub_raising m r 0 (Some c) cs of
             Inl e \<Rightarrow> Inl e
           | Inr out \<Rightarrow> Inr (c # out))
      | Some g \<Rightarrow>
          (case r g of
             Inl e \<Rightarrow> Inl e
           | Inr t \<Rightarrow>
               (case re_sub_raising m r (length (group0 g) - 1) (Some c) cs of
                  Inl e \<Rightarrow> Inl e
                | Inr out \<Rightarrow> Inr (t @ out))))"

text \<open>Pieces of the matchers.\<close>

fun strip_prefix :: "string \<Rightarrow> string \<Rightarrow> string option" where
  "strip_prefix [] s = Some s"
| "strip_prefix (p # ps) [] = None"
| "strip_prefix (p # ps) (c # cs) = (if p = c then strip_prefix ps cs else None)"

text \<open>An alternation \<^verbatim>\<open>A|B|...\<close>: the first alternative with which the rest matches.\<close>

fun first_alt :: "('a \<Rightarrow> 'b option) \<Rightarrow> 'a list \<Rightarrow> 'b option" where
  "first_alt f [] = None"
| "first_alt f (x # xs) = (case f x of Some y \<Rightarrow> Some y | None \<Rightarrow> first_alt f xs)"

text \<open>The text a match took: what is left of \<open>s\<close> when \<open>rest\<close> remains.\<close>

definition matched :: "string \<Rightarrow> string \<Rightarrow> string" where
  "matched s rest = take (length s - length rest) s"

text \<open>\<^verbatim>\<open>repo.split('/')[-1]\<close>\<close>

definition last_component :: "string \<Rightarrow> string" where
  "last_component repo = rev (takeWhile (\<lambda>c. c \<noteq> CHR ''/'') (rev repo))"

section \<open>Explicit links\<close>

text \<open>
  \<^verbatim>\<open>https://bitbucket.org/(R1|R2|...)/issues*/(\d+)[^\s()\[\]{}]*\<close> and the same with
  \<^verbatim>\<open>pull-requests*\<close>: the repository names of \<^verbatim>\<open>KNOWN_REPO_MAPPING\<close> joined by \<^verbatim>\<open>|\<close>.
  The names are taken to hold no character that is special in a pattern, so each
  alternative matches itself; the dot of \<^verbatim>\<open>bitbucket.org\<close> is the pattern's dot and
  matches any character but a newline.
\<close>

definition is_link_char :: "char \<Rightarrow> bool" where
  "is_link_char c = (if is_space c then False else c \<notin> set ''()[]{}'')"

text \<open>
  From behind the repository name: \<open>word\<close> (\<^verbatim>\<open>/issue\<close> or \<^verbatim>\<open>/pull-request\<close>), any number
  of \<^verbatim>\<open>s\<close>, a slash, the digits of group 2, and the greedy rest of the link. Returns
  group 2 and what remains behind the match.
\<close>

definition match_link_tail :: "string \<Rightarrow> string \<Rightarrow> (string \<times> string) option" where
  "match_link_tail word s =
     (case strip_prefix word s of
        None \<Rightarrow> None
      | Some s1 \<Rightarrow>
          (case strip_prefix ''/'' (dropWhile (\<lambda>c. c = CHR ''s'') s1) of
             None \<Rightarrow> None
           | Some s2 \<Rightarrow>
               if takeWhile is_digit s2 = [] then None
               else Some (takeWhile is_digit s2,
                          dropWhile is_link_char (dropWhile is_digit s2))))"

definition match_explicit_link ::
  "string \<Rightarrow> string list \<Rightarrow> char option \<Rightarrow> string \<Rightarrow> re_match option" where
  "match_explicit_link word repos prev s =
     (case strip_prefix ''https://bitbucket'' s of
        None \<Rightarrow> None
      | Some s1 \<Rightarrow>
          (case s1 of
             [] \<Rightarrow> None
           | c # s2 \<Rightarrow>
               if c = newline then None
               else
                 (case strip_prefix ''org/'' s2 of
                    None \<Rightarrow> None
                  | Some s3 \<Rightarrow>
                      first_alt
                        (\<lambda>repo.
                           case strip_prefix repo s3 of
                             None \<Rightarrow> None
                           | Some s4 \<Rightarrow>
                               (case match_link_tail word s4 of
                                  None \<Rightarrow> None
                                | Some (nr, rest) \<Rightarrow>
                                    Some \<lparr>group0 = matched s rest, group1 = Some repo,
                                          group2 = Some nr\<rparr>))
                        repos)))"

definition EXPLICIT_ISSUE_LINK_RE ::
  "config \<Rightarrow> char option \<Rightarrow> string \<Rightarrow> re_match option" where
  "EXPLICIT_ISSUE_LINK_RE cfg =
     match_explicit_link ''/issue'' (map fst (KNOWN_REPO_MAPPING cfg))"

definition EXPLICIT_PR_LINK_RE ::
  "config \<Rightarrow> char option \<Rightarrow> string \<Rightarrow> re_match option" where
  "EXPLICIT_PR_LINK_RE cfg =
     match_explicit_link ''/pull-request'' (map fst (KNOWN_REPO_MAPPING cfg))"

text \<open>The replacement function of \<^verbatim>\<open>replace_explicit_links_to_issues\<close>.\<close>

definition explicit_replace_issue_link :: "config \<Rightarrow> re_match \<Rightarrow> string" where
  "explicit_replace_issue_link cfg g =
     (case group1 g of
        None \<Rightarrow> group0 g
      | Some brepo \<Rightarrow>
          (case map_of (KNOWN_REPO_MAPPING cfg) brepo of
             None \<Rightarrow> group0 g
           | Some grepo \<Rightarrow>
               ''https://github.com/'' @ grepo @ ''/issues/'' @ format_opt (group2 g)))"

definition replace_explicit_links_to_issues :: "config \<Rightarrow> string \<Rightarrow> string" where
  "replace_explicit_links_to_issues cfg body =
     re_sub (EXPLICIT_ISSUE_LINK_RE cfg) (explicit_replace_issue_link cfg) 0 None body"

text \<open>
  The replacement function of \<^verbatim>\<open>replace_explicit_links_to_prs\<close>: the pull request's
  number is read as an integer and moved up by the repository's issue count.
\<close>

text \<open>Both groups take part in every match of the pattern.\<close>

definition explicit_replace_pr_link :: "config \<Rightarrow> re_match \<Rightarrow> string" where
  "explicit_replace_pr_link cfg g =
     (case (group1 g, group2 g) of
        (Some brepo, Some nr) \<Rightarrow>
          (case (map_of (KNOWN_REPO_MAPPING cfg) brepo,
                 map_of (KNOWN_ISSUES_COUNT_MAPPING cfg) brepo) of
             (Some grepo, Some issues_count) \<Rightarrow>
               ''https://github.com/'' @ grepo @ ''/pull/'' @
                 str_int (int_of_digits nr + issues_count)
           | _ \<Rightarrow> group0 g)
      | _ \<Rightarrow> group0 g)"

definition replace_explicit_links_to_prs :: "config \<Rightarrow> string \<Rightarrow> string" where
  "replace_explicit_links_to_prs cfg body =
     re_sub (EXPLICIT_PR_LINK_RE cfg) (explicit_replace_pr_link cfg) 0 None body"

section \<open>Implicit links\<close>

text \<open>
  \<^verbatim>\<open>\[.*?\]|(N1 |N2 |...)?issue #(\d+)/i\<close> and the same with \<^verbatim>\<open>pull request\<close>, where
  \<^verbatim>\<open>Ni\<close> is the last component of the i-th repository name. The pattern is compiled
  without flags, so its end \<^verbatim>\<open>/i\<close> is two characters that the text must hold.

  The first alternative: an opening bracket, as few characters as possible (none of them
  a newline), and the first closing bracket.
\<close>

definition match_bracket :: "string \<Rightarrow> string option" where
  "match_bracket s =
     (case s of
        [] \<Rightarrow> None
      | c # t \<Rightarrow>
          if c = CHR ''[''
          then (case dropWhile (\<lambda>x. x \<noteq> CHR '']'') t of
                  [] \<Rightarrow> None
                | b # rest \<Rightarrow>
                    if newline \<in> set (takeWhile (\<lambda>x. x \<noteq> CHR '']'') t) then None
                    else Some rest)
          else None)"

text \<open>
  The reference behind the optional name: \<open>word\<close>, a blank, a hash, the digits of
  group 2, then \<^verbatim>\<open>/i\<close>. Returns group 2 and what remains behind the match.
\<close>

definition match_reference :: "string \<Rightarrow> string \<Rightarrow> (string \<times> string) option" where
  "match_reference word s =
     (case strip_prefix (word @ '' #'') s of
        None \<Rightarrow> None
      | Some s1 \<Rightarrow>
          if takeWhile is_digit s1 = [] then None
          else (case strip_prefix ''/i'' (dropWhile is_digit s1) of
                  None \<Rightarrow> None
                | Some rest \<Rightarrow> Some (takeWhile is_digit s1, rest)))"

text \<open>
  The optional group is greedy: each name is tried in order, and the reference without a
  name last.
\<close>

definition match_implicit_link ::
  "string \<Rightarrow> string list \<Rightarrow> char option \<Rightarrow> string \<Rightarrow> re_match option" where
  "match_implicit_link word names prev s =
     (case match_bracket s of
        Some rest \<Rightarrow> Some \<lparr>group0 = matched s rest, group1 = None, group2 = None\<rparr>
      | None \<Rightarrow>
          (case first_alt
                  (\<lambda>name.
                     case strip_prefix name s of
                       None \<Rightarrow> None
                     | Some s1 \<Rightarrow>
                         (case match_reference word s1 of
                            None \<Rightarrow> None
                          | Some (nr, rest) \<Rightarrow>
                              Some \<lparr>group0 = matched s rest, group1 = Some name,
                                    group2 = Some nr\<rparr>))
                  names of
             Some g \<Rightarrow> Some g
           | None \<Rightarrow>
               (case match_reference word s of
                  None \<Rightarrow> None
                | Some (nr, rest) \<Rightarrow>
                    Some \<lparr>group0 = matched s rest, group1 = None, group2 = Some nr\<rparr>)))"

definition repo_names :: "config \<Rightarrow> string list" where
  "repo_names cfg = map (\<lambda>repo. last_component repo @ '' '') (map fst (KNOWN_REPO_MAPPING cfg))"

definition IMPLICIT_ISSUE_LINK_RE ::
  "config \<Rightarrow> char option \<Rightarrow> string \<Rightarrow> re_match option" where
  "IMPLICIT_ISSUE_LINK_RE cfg = match_implicit_link ''issue'' (repo_names cfg)"

definition IMPLICIT_PR_LINK_RE ::
  "config \<Rightarrow> char option \<Rightarrow> string \<Rightarrow> re_match option" where
  "IMPLICIT_PR_LINK_RE cfg = match_implicit_link ''pull request'' (repo_names cfg)"

text \<open>
  The loop over \<^verbatim>\<open>KNOWN_REPO_MAPPING\<close> of both replacement functions: the first
  repository whose short name and a blank is the text of group 1.
\<close>

definition find_repo_by_name :: "config \<Rightarrow> string option \<Rightarrow> (string \<times> string) option" where
  "find_repo_by_name cfg repo_name =
     find (\<lambda>(brepo, grepo). repo_name = Some (last_component brepo @ '' ''))
       (KNOWN_REPO_MAPPING cfg)"

text \<open>The replacement function of \<^verbatim>\<open>replace_implicit_links_to_issues\<close>.\<close>

definition implicit_replace_issue_link :: "config \<Rightarrow> args \<Rightarrow> re_match \<Rightarrow> string" where
  "implicit_replace_issue_link cfg a g =
     (case group2 g of
        None \<Rightarrow> group0 g
      | Some issue_nr \<Rightarrow>
          (let grepo = (case find_repo_by_name cfg (group1 g) of
                          None \<Rightarrow> github_repository a
                        | Some (brepo, grepo) \<Rightarrow> grepo)
           in ''https://github.com/'' @ grepo @ ''/issues/'' @ issue_nr))"

definition replace_implicit_links_to_issues :: "config \<Rightarrow> args \<Rightarrow> string \<Rightarrow> string" where
  "replace_implicit_links_to_issues cfg a body =
     re_sub (IMPLICIT_ISSUE_LINK_RE cfg) (implicit_replace_issue_link cfg a) 0 None body"

text \<open>
  The replacement function of \<^verbatim>\<open>replace_implicit_links_to_prs\<close>. Here \<^verbatim>\<open>bpr_nr\<close> is
  the text of group 2 and \<^verbatim>\<open>issues_count\<close> an integer, so \<^verbatim>\<open>bpr_nr + issues_count\<close>
  raises \<^verbatim>\<open>TypeError\<close>: no link is ever built.
\<close>

definition implicit_replace_pr_link :: "config \<Rightarrow> args \<Rightarrow> re_match \<Rightarrow> error + string" where
  "implicit_replace_pr_link cfg a g =
     (case group2 g of
        None \<Rightarrow> Inr (group0 g)
      | Some bpr_nr \<Rightarrow>
          (let (brepo, grepo) = (case find_repo_by_name cfg (group1 g) of
                                   None \<Rightarrow> (bitbucket_repository a, github_repository a)
                                 | Some (repo, grepo) \<Rightarrow> (repo, grepo))
           in case map_of (KNOWN_ISSUES_COUNT_MAPPING cfg) brepo of
                None \<Rightarrow> Inr (group0 g)
              | Some issues_count \<Rightarrow> Inl TypeError))"

definition replace_implicit_links_to_prs :: "config \<Rightarrow> args \<Rightarrow> string \<Rightarrow> error + string" where
  "replace_implicit_links_to_prs cfg a body =
     re_sub_raising (IMPLICIT_PR_LINK_RE cfg) (implicit_replace_pr_link cfg a) 0 None body"

section \<open>User mentions\<close>

text \<open>
  \<^verbatim>\<open>(?:^|(?<=[^\w]))@([a-zA-Z0-9_\-]+|{[a-zA-Z0-9_\-:]+})\<close>: at the start of the body or
  behind a character that is no word character, an \<^verbatim>\<open>@\<close> and a handle, which is a
  run of handle characters or such a run (colons allowed) in braces.
\<close>

definition is_handle_char :: "char \<Rightarrow> bool" where
  "is_handle_char c = (is_ascii_letter c \<or> is_digit c \<or> c = CHR ''_'' \<or> c = CHR ''-'')"

definition is_braced_char :: "char \<Rightarrow> bool" where
  "is_braced_char c = (is_handle_char c \<or> c = CHR '':'')"

definition mention_position :: "char option \<Rightarrow> bool" where
  "mention_position prev = (case prev of None \<Rightarrow> True | Some p \<Rightarrow> (if is_word p then False else True))"

definition MENTION_RE :: "char option \<Rightarrow> string \<Rightarrow> re_match option" where
  "MENTION_RE prev s =
     (if mention_position prev
      then (case s of
              [] \<Rightarrow> None
            | c # t \<Rightarrow>
                if c = CHR ''@''
                then (if takeWhile is_handle_char t = []
                      then (case t of
                              [] \<Rightarrow> None
                            | b # u \<Rightarrow>
                                if b = CHR ''{''
                                then (if takeWhile is_braced_char u = [] then None
                                      else (case dropWhile is_braced_char u of
                                              [] \<Rightarrow> None
                                            | e # rest \<Rightarrow>
                                                if e = CHR ''}''
                                                then Some \<lparr>group0 = matched s rest,
                                                       group1 = Some (matched t rest), group2 = None\<rparr>
                                                else None))
                                else None)
                      else Some \<lparr>group0 = c # takeWhile is_handle_char t,
                                  group1 = Some (takeWhile is_handle_char t), group2 = None\<rparr>)
                else None)
      else None)"

definition lookup_user :: "config \<Rightarrow> string \<Rightarrow> string" where
  "lookup_user cfg buser_nickname =
     (case map_of (USER_MAPPING cfg) buser_nickname of
        None \<Rightarrow> ''ignore_'' @ buser_nickname
      | Some guser \<Rightarrow> ''ignore_'' @ guser)"

text \<open>
  The replacement function of \<^verbatim>\<open>replace_links_to_users\<close>. Its branch for a user that
  \<^verbatim>\<open>lookup_user\<close> does not know is dead code: \<^verbatim>\<open>lookup_user\<close> never returns \<^verbatim>\<open>None\<close>.
\<close>

definition replace_user :: "config \<Rightarrow> re_match \<Rightarrow> string" where
  "replace_user cfg g = ''@'' @ lookup_user cfg (format_opt (group1 g))"

definition replace_links_to_users :: "config \<Rightarrow> string \<Rightarrow> string" where
  "replace_links_to_users cfg body = re_sub MENTION_RE (replace_user cfg) 0 None body"

section \<open>The content rewriter\<close>

definition map_content :: "config \<Rightarrow> args \<Rightarrow> string \<Rightarrow> error + string" where
  "map_content cfg a content =
     (let tmp = replace_explicit_links_to_issues cfg content;
          tmp = replace_implicit_links_to_issues cfg a tmp;
          tmp = replace_explicit_links_to_prs cfg tmp
      in case replace_implicit_links_to_prs cfg a tmp of
           Inl e \<Rightarrow> Inl e
         | Inr tmp \<Rightarrow> Inr (replace_links_to_users cfg tmp))"

section \<open>Source items\<close>

text \<open>
  The dicts of the Bitbucket export, as records. A field that the code tests against
  \<^verbatim>\<open>None\<close> somewhere, or a key whose presence it tests, is an option; a nested dict with
  one field that is read (a user's \<^verbatim>\<open>nickname\<close>, a repository's \<^verbatim>\<open>full_name\<close>, a branch's
  \<^verbatim>\<open>name\<close>, a commit's \<^verbatim>\<open>hash\<close>, a component's \<^verbatim>\<open>name\<close>, a content's \<^verbatim>\<open>raw\<close>) is that
  field. Subscripting \<^verbatim>\<open>None\<close> raises \<^verbatim>\<open>TypeError\<close>.
\<close>

record buser =
  nickname :: string

record inline_data =
  inline_path :: string
  inline_from :: "int option"
  inline_to :: "int option"

record bcomment =
  comment_raw :: "string option"
  comment_user :: "buser option"
  comment_created_on :: string
  comment_inline :: "inline_data option"
  comment_parent :: "int option"
  comment_deleted :: "bool option"

record bissue =
  issue_id :: int
  issue_title :: string
  issue_raw :: "string option"
  issue_reporter :: "buser option"
  issue_assignee :: "buser option"
  issue_state :: string
  issue_priority :: string
  issue_kind :: string
  issue_component :: "string option"
  issue_created_on :: string
  issue_updated_on :: string

record endpoint =
  repository :: "string option"
  branch :: "string option"
  commit :: "string option"

record participant =
  participant_user :: "buser option"
  role :: string
  approved :: bool

record bpull =
  pull_id :: int
  pull_title :: string
  pull_description :: "string option"
  pull_author :: "buser option"
  pull_state :: string
  pull_created_on :: string
  pull_updated_on :: string
  participants :: "participant list"
  reviewers :: "buser list"
  source :: endpoint
  destination :: endpoint
  merge_commit :: "string option"

record bchange =
  change_created_on :: string
  change_user :: "buser option"
  changes :: "(string \<times> string option \<times> string option) list"

record approval =
  approval_date :: string
  approval_user :: "buser option"

text \<open>An entry of a pull request's activity: an approval, or a comment or update.\<close>

datatype activity = Approval approval | Other_activity

section \<open>Collaborators\<close>

text \<open>
  The source data provider \<^verbatim>\<open>BitbucketExport\<close>, the commit map \<^verbatim>\<open>CommitMap\<close>, the
  destination client \<^verbatim>\<open>GithubImport\<close> and \<^verbatim>\<open>dateutil\<close> are not among the sources: each
  is a parameter. The provider and the commit map are read only.
\<close>

record bexport =
  get_repo_full_name :: string
  get_issues :: "bissue list"
  get_pulls :: "bpull list"
  get_issue_attachments :: "int \<Rightarrow> (string \<times> string) list"
  get_issue_attachment_content :: "int \<Rightarrow> string \<Rightarrow> string"
  get_issue_comments :: "int \<Rightarrow> (int \<times> bcomment) list"
  get_issue_changes :: "int \<Rightarrow> bchange list"
  get_pull_comments :: "int \<Rightarrow> (int \<times> bcomment) list"
  get_pull_activity :: "int \<Rightarrow> activity list"

record cmap =
  convert_branch_name :: "string \<Rightarrow> string option \<Rightarrow> string"
  convert_commit_hash :: "string \<Rightarrow> string option"

text \<open>
  \<^verbatim>\<open>time_string_to_date_string\<close> is \<^verbatim>\<open>parser.parse(timestring).strftime("%Y-%m-%d %H:%M")\<close>:
  the type of that function, which raises on a text that is no date.
\<close>

type_synonym date_parser = "string \<Rightarrow> error + string"

section \<open>Identity mapper\<close>

fun bind_err :: "error + 'a \<Rightarrow> ('a \<Rightarrow> error + 'b) \<Rightarrow> error + 'b" where
  "bind_err (Inl e) f = Inl e"
| "bind_err (Inr x) f = f x"

definition NL :: string where
  "NL = [newline]"

definition map_bstate_to_gstate :: "config \<Rightarrow> string \<Rightarrow> string" where
  "map_bstate_to_gstate cfg bstate =
     (if bstate \<in> set (OPEN_ISSUE_OR_PULL_REQUEST_STATES cfg) then ''open'' else ''closed'')"

definition map_buser_to_guser :: "config \<Rightarrow> buser option \<Rightarrow> string option" where
  "map_buser_to_guser cfg buser =
     (case buser of None \<Rightarrow> None | Some u \<Rightarrow> Some (lookup_user cfg (nickname u)))"

definition map_brepo_to_grepo :: "config \<Rightarrow> string \<Rightarrow> string option" where
  "map_brepo_to_grepo cfg brepo = map_of (KNOWN_REPO_MAPPING cfg) brepo"

text \<open>
  The four label functions look a value up in their table; a value that is missing, or
  mapped to \<^verbatim>\<open>None\<close>, gives no label. What they and the assembler below print on the
  console is not part of the model.
\<close>

definition label_of :: "(string \<times> string option) list \<Rightarrow> string \<Rightarrow> string list" where
  "label_of table v =
     (case map_of table v of
        None \<Rightarrow> []
      | Some None \<Rightarrow> []
      | Some (Some label) \<Rightarrow> [label])"

definition map_bstate_to_glabels :: "config \<Rightarrow> string \<Rightarrow> string list" where
  "map_bstate_to_glabels cfg bstate = label_of (STATE_MAPPING cfg) bstate"

definition map_bpriority_to_glabels :: "config \<Rightarrow> bissue \<Rightarrow> string list" where
  "map_bpriority_to_glabels cfg bissue = label_of (PRIORITY_MAPPING cfg) (issue_priority bissue)"

definition map_bkind_to_glabels :: "config \<Rightarrow> bissue \<Rightarrow> string list" where
  "map_bkind_to_glabels cfg bissue = label_of (KIND_MAPPING cfg) (issue_kind bissue)"

definition map_bcomponent_to_glabels :: "config \<Rightarrow> bissue \<Rightarrow> string list" where
  "map_bcomponent_to_glabels cfg bissue =
     (case issue_component bissue of
        None \<Rightarrow> []
      | Some bcomponent \<Rightarrow> label_of (COMPONENT_MAPPING cfg) bcomponent)"

text \<open>
  \<^verbatim>\<open>map_content\<close> on a value that may be \<^verbatim>\<open>None\<close>: the first substitution raises
  \<^verbatim>\<open>TypeError\<close> on it.
\<close>

definition map_content_of :: "config \<Rightarrow> args \<Rightarrow> string option \<Rightarrow> error + string" where
  "map_content_of cfg a content =
     (case content of None \<Rightarrow> Inl TypeError | Some s \<Rightarrow> map_content cfg a s)"

text \<open>\<^verbatim>\<open>"text" + x\<close> for an \<open>x\<close> that may be \<^verbatim>\<open>None\<close> raises \<^verbatim>\<open>TypeError\<close> on \<^verbatim>\<open>None\<close>.\<close>

definition concat_str :: "string option \<Rightarrow> error + string" where
  "concat_str x = (case x of None \<Rightarrow> Inl TypeError | Some s \<Rightarrow> Inr s)"

text \<open>
  \<^verbatim>\<open>convert_date\<close>: the first place where \<^verbatim>\<open>dddd-dd-ddTdd:dd:dd\<close> matches, \<^verbatim>\<open>d\<close> a digit.
\<close>

definition date_at :: "string \<Rightarrow> bool" where
  "date_at s =
     (19 \<le> length s \<and>
      list_all2 (\<lambda>p c. if p = CHR ''d'' then is_digit c else p = c)
        ''dddd-dd-ddTdd:dd:dd'' (take 19 s))"

fun convert_date :: "string \<Rightarrow> error + string" where
  "convert_date [] = Inl RuntimeError"
| "convert_date (c # cs) =
     (if date_at (c # cs)
      then Inr (take 10 (c # cs) @ ''T'' @ take 8 (drop 11 (c # cs)) @ ''Z'')
      else convert_date cs)"

section \<open>Destination items\<close>

record gcomment =
  comment_body :: string
  comment_created_at :: string

record gissue =
  issue_title' :: string
  issue_body :: string
  issue_created_at :: string
  issue_updated_at :: string
  issue_assignee' :: "string option"
  issue_closed :: bool
  issue_labels :: "string set"

record gpull =
  pull_title' :: string
  pull_body :: string
  pull_assignees :: "string option list"
  pull_closed :: bool
  pull_labels :: "string set"
  pull_base :: string
  pull_head :: string

text \<open>
  The dict \<^verbatim>\<open>{"issue": ..., "comments": ...}\<close> or \<^verbatim>\<open>{"pull": ..., "comments": ...}\<close> that
  is uploaded.
\<close>

datatype gdata = Issue_data gissue "gcomment list" | Pull_data gpull "gcomment list"

text \<open>A gist as sent (\<^verbatim>\<open>description\<close>, \<^verbatim>\<open>files\<close>) and as returned (file name to raw URL).\<close>

record gist_data =
  description :: string
  files :: "(string \<times> string) list"

record gist =
  raw_urls :: "(string \<times> string) list"

section \<open>Content assembler\<close>

definition inline_header :: "inline_data \<Rightarrow> string" where
  "inline_header inline =
     (case inline_from inline of
        None \<Rightarrow>
          (case inline_to inline of
             None \<Rightarrow> ''> Inline comment on `'' @ inline_path inline @ ''`'' @ NL
           | Some to_line \<Rightarrow>
               ''> Inline comment on line '' @ str_int to_line @ '' of `'' @
                 inline_path inline @ ''`'' @ NL)
      | Some from_line \<Rightarrow>
          ''> Inline comment on lines '' @ str_int from_line @ ''..'' @
            format_opt (map_option str_int (inline_to inline)) @ '' of `'' @
            inline_path inline @ ''`'' @ NL)"

definition construct_gcomment_body ::
  "config \<Rightarrow> date_parser \<Rightarrow> bcomment \<Rightarrow> (int \<times> bcomment) list \<Rightarrow> args \<Rightarrow> error + string" where
  "construct_gcomment_body cfg time_string_to_date_string bcomment bcomments_by_id a =
     bind_err (time_string_to_date_string (comment_created_on bcomment)) (\<lambda>comment_created_on.
     bind_err (concat_str (map_buser_to_guser cfg (comment_user bcomment))) (\<lambda>guser.
     let sb1 = ''> **@'' @ guser @ ''** commented on '' @ comment_created_on @ NL;
         sb2 = (case comment_inline bcomment of None \<Rightarrow> [] | Some inline \<Rightarrow> inline_header inline);
         sb3 = NL
     in
     bind_err
       (case comment_parent bcomment of
          None \<Rightarrow> Inr []
        | Some parent_id \<Rightarrow>
            (case map_of bcomments_by_id parent_id of
               None \<Rightarrow> Inl KeyError
             | Some parent_comment \<Rightarrow>
                 (case comment_raw parent_comment of
                    None \<Rightarrow> Inr []
                  | Some raw \<Rightarrow>
                      bind_err (map_content cfg a raw) (\<lambda>quoted.
                      Inr (''> '' @ quoted @ NL @ NL))))) (\<lambda>sb4.
     bind_err
       (case comment_raw bcomment of
          None \<Rightarrow> Inr []
        | Some raw \<Rightarrow> map_content cfg a raw) (\<lambda>sb5.
     Inr (sb1 @ sb2 @ sb3 @ sb4 @ sb5)))))"

text \<open>The attachment lines of an issue body, one for each name.\<close>

fun attachment_lines :: "gist option \<Rightarrow> string list \<Rightarrow> error + string" where
  "attachment_lines attachments_gist [] = Inr []"
| "attachment_lines attachments_gist (name # names) =
     bind_err
       (case attachments_gist of
          None \<Rightarrow> Inr (''* **`'' @ name @ ''`** (missing link)'' @ NL)
        | Some g \<Rightarrow>
            (case map_of (raw_urls g) name of
               None \<Rightarrow> Inl KeyError
             | Some raw_url \<Rightarrow> Inr (''* [**`'' @ name @ ''`**]('' @ raw_url @ '')'' @ NL))) (\<lambda>line.
     bind_err (attachment_lines attachments_gist names) (\<lambda>more.
     Inr (line @ more)))"

definition construct_gissue_body ::
  "config \<Rightarrow> date_parser \<Rightarrow> bissue \<Rightarrow> (string \<times> string) list \<Rightarrow> (int \<Rightarrow> gist option) \<Rightarrow>
   args \<Rightarrow> error + string" where
  "construct_gissue_body cfg time_string_to_date_string bissue battachments
       attachment_gist_by_issue_id a =
     bind_err (time_string_to_date_string (issue_created_on bissue)) (\<lambda>created_on.
     bind_err (time_string_to_date_string (issue_updated_on bissue)) (\<lambda>updated_on.
     bind_err (concat_str (map_buser_to_guser cfg (issue_reporter bissue))) (\<lambda>guser.
     let sb1 = ''> Created by **@'' @ guser @ ''** on '' @ created_on @ NL;
         sb2 = (if created_on \<noteq> updated_on then ''> Last updated on '' @ updated_on @ NL else [])
     in
     bind_err (map_content_of cfg a (issue_raw bissue)) (\<lambda>content.
     bind_err
       (if battachments \<noteq> []
        then bind_err
               (attachment_lines (attachment_gist_by_issue_id (issue_id bissue))
                  (map fst battachments)) (\<lambda>lines.
             Inr (NL @ ''---'' @ NL @ NL @ ''Attachments:'' @ NL @ lines))
        else Inr []) (\<lambda>sb4.
     Inr (sb1 @ sb2 @ NL @ content @ NL @ sb4))))))"

definition participant_line :: "config \<Rightarrow> participant \<Rightarrow> string" where
  "participant_line cfg p =
     ''> * **@'' @ format_opt (map_buser_to_guser cfg (participant_user p)) @ ''**'' @
     (if role p = ''REVIEWER'' then '' (reviewer)'' else []) @
     (if approved p then '' :heavy_check_mark:'' else []) @ NL"

text \<open>
  The section on the source of a pull request. Besides its text it returns the local
  variable \<^verbatim>\<open>source_ghash\<close>: \<open>None\<close> when the branch taken never assigns it, \<open>Some v\<close>
  when it holds \<open>v\<close> (which may be \<^verbatim>\<open>None\<close>).
\<close>

definition source_section ::
  "config \<Rightarrow> bexport \<Rightarrow> cmap \<Rightarrow> endpoint \<Rightarrow> error + (string \<times> string option option)" where
  "source_section cfg be cm src =
     (if repository src = None \<and> commit src = None
      then
        bind_err (concat_str (branch src)) (\<lambda>source_bbranch.
        let source_brepo = get_repo_full_name be;
            source_grepo = map_brepo_to_grepo cfg source_brepo;
            source_gbranch = convert_branch_name cm source_bbranch None
        in Inr (''> Source: branch [`'' @ source_gbranch @ ''`](https://github.com/'' @
                  format_opt source_grepo @ ''/tree/'' @ source_gbranch @ '')'' @ NL, None))
      else
        bind_err (concat_str (repository src)) (\<lambda>source_brepo.
        bind_err (concat_str (branch src)) (\<lambda>source_bbranch.
        bind_err (concat_str (commit src)) (\<lambda>source_bhash.
        let source_grepo = map_brepo_to_grepo cfg source_brepo;
            source_gbranch = convert_branch_name cm source_bbranch (Some source_brepo);
            source_ghash = convert_commit_hash cm source_bhash
        in Inr (''> Source: branch [`'' @ source_gbranch @ ''`](https://github.com/'' @
                  format_opt source_grepo @ ''/tree/'' @ source_gbranch @ ''), ['' @
                  format_opt source_ghash @ ''](https://github.com/'' @ format_opt source_grepo @
                  ''/commit/'' @ format_opt source_ghash @ '')'' @ NL, Some source_ghash)))))"

text \<open>
  The section on the destination. After the destination's values are computed the code
  reads \<^verbatim>\<open>source_ghash\<close>, which raises \<^verbatim>\<open>UnboundLocalError\<close> when it was never assigned.
\<close>

definition destination_section ::
  "config \<Rightarrow> cmap \<Rightarrow> endpoint \<Rightarrow> string option option \<Rightarrow> error + string" where
  "destination_section cfg cm dst source_ghash =
     bind_err (concat_str (repository dst)) (\<lambda>destination_brepo.
     bind_err (concat_str (branch dst)) (\<lambda>destination_bbranch.
     bind_err (concat_str (commit dst)) (\<lambda>destination_bhash.
     let destination_grepo = map_brepo_to_grepo cfg destination_brepo;
         destination_gbranch = convert_branch_name cm destination_bbranch (Some destination_brepo);
         destination_ghash = convert_commit_hash cm destination_bhash
     in
     (case source_ghash of
        None \<Rightarrow> Inl UnboundLocalError
      | Some v \<Rightarrow>
          Inr (''> Destination: branch [`'' @ destination_gbranch @ ''`](https://github.com/'' @
                 format_opt destination_grepo @ ''/tree/'' @ destination_gbranch @ ''), ['' @
                 format_opt destination_ghash @ ''](https://github.com/'' @
                 format_opt destination_grepo @ ''/commit/'' @ format_opt destination_ghash @
                 '')'' @ NL)))))"

definition merge_section :: "config \<Rightarrow> bexport \<Rightarrow> cmap \<Rightarrow> string option \<Rightarrow> string" where
  "merge_section cfg be cm mc =
     (case mc of
        None \<Rightarrow> []
      | Some merge_bhash \<Rightarrow>
          (let merge_grepo = map_brepo_to_grepo cfg (get_repo_full_name be);
               merge_ghash = convert_commit_hash cm merge_bhash
           in ''> Marge commit: ['' @ format_opt merge_ghash @ ''](https://github.com/'' @
                format_opt merge_grepo @ ''/commit/'' @ format_opt merge_ghash @ '')'' @ NL))"

definition construct_gpull_request_body ::
  "config \<Rightarrow> date_parser \<Rightarrow> bpull \<Rightarrow> bexport \<Rightarrow> cmap \<Rightarrow> args \<Rightarrow> error + string" where
  "construct_gpull_request_body cfg time_string_to_date_string bpull be cm a =
     bind_err (time_string_to_date_string (pull_created_on bpull)) (\<lambda>created_on.
     bind_err (time_string_to_date_string (pull_updated_on bpull)) (\<lambda>updated_on.
     let author_msg =
           (case pull_author bpull of
              None \<Rightarrow> []
            | Some u \<Rightarrow> ''by **@'' @ lookup_user cfg (nickname u) @ ''** '');
         sb1 = ''>  **Pull request** :twisted_rightwards_arrows: created '' @ author_msg @
                 ''on '' @ created_on @ NL;
         sb2 = (if created_on \<noteq> updated_on then ''> Last updated on '' @ updated_on @ NL else []);
         sb3 = (if participants bpull \<noteq> []
                then ''>'' @ NL @ ''> Participants:'' @ NL @ ''>'' @ NL @
                       concat (map (participant_line cfg) (participants bpull))
                else []);
         sb4 = ''>'' @ NL
     in
     bind_err (source_section cfg be cm (source bpull)) (\<lambda>(sb5, source_ghash).
     bind_err (destination_section cfg cm (destination bpull) source_ghash) (\<lambda>sb6.
     let sb7 = merge_section cfg be cm (merge_commit bpull);
         sb8 = ''>'' @ NL @ ''> State: **`'' @ pull_state bpull @ ''`**'' @ NL
     in
     bind_err (map_content_of cfg a (pull_description bpull)) (\<lambda>content.
     Inr (sb1 @ sb2 @ sb3 @ sb4 @ sb5 @ sb6 @ sb7 @ sb8 @ NL @ content @ NL))))))"

text \<open>A loop whose body may raise, over a value that it updates.\<close>

fun fold_err :: "('a \<Rightarrow> 's \<Rightarrow> error + 's) \<Rightarrow> 'a list \<Rightarrow> 's \<Rightarrow> error + 's" where
  "fold_err f [] s = Inr s"
| "fold_err f (x # xs) s = bind_err (f x s) (fold_err f xs)"

definition or_none :: "string option \<Rightarrow> string" where
  "or_none v = (case v of None \<Rightarrow> ''(none)'' | Some t \<Rightarrow> if t = [] then ''(none)'' else t)"

definition construct_gcomment_body_for_change ::
  "config \<Rightarrow> date_parser \<Rightarrow> bchange \<Rightarrow> error + string" where
  "construct_gcomment_body_for_change cfg time_string_to_date_string bchange =
     bind_err (time_string_to_date_string (change_created_on bchange)) (\<lambda>created_on.
     Inr (concat (map (\<lambda>(changed_key, old, new).
            if changed_key \<in> set [''content'', ''title'', ''assignee_account_id''] then []
            else ''> **@'' @ format_opt (map_buser_to_guser cfg (change_user bchange)) @
                 ''** changed `'' @ changed_key @ ''` from `'' @ or_none old @ ''` to `'' @
                 or_none new @ ''` on '' @ created_on @ NL)
          (changes bchange))))"

definition construct_gcomment_body_for_approval_activity ::
  "config \<Rightarrow> date_parser \<Rightarrow> approval \<Rightarrow> error + string" where
  "construct_gcomment_body_for_approval_activity cfg time_string_to_date_string approval_activity =
     bind_err (time_string_to_date_string (approval_date approval_activity)) (\<lambda>on_date.
     Inr (''> **@'' @ format_opt (map_buser_to_guser cfg (approval_user approval_activity)) @
          ''** approved :heavy_check_mark: the pull request on '' @ on_date))"

definition construct_gissue_title_for_pull :: "bpull \<Rightarrow> string" where
  "construct_gissue_title_for_pull bpull = ''[PR] '' @ pull_title bpull"

definition construct_gissue_comments ::
  "config \<Rightarrow> date_parser \<Rightarrow> (int \<times> bcomment) list \<Rightarrow> args \<Rightarrow> error + gcomment list" where
  "construct_gissue_comments cfg time_string_to_date_string bcomments a =
     bind_err
       (fold_err
          (\<lambda>(comment_id, bcomment) comments.
             if comment_raw bcomment = None then Inr comments
             else if comment_deleted bcomment = Some True then Inr comments
             else
               bind_err (construct_gcomment_body cfg time_string_to_date_string bcomment bcomments a)
                 (\<lambda>body.
               bind_err (convert_date (comment_created_on bcomment)) (\<lambda>created_at.
               Inr (comments @ [\<lparr>comment_body = body, comment_created_at = created_at\<rparr>]))))
          bcomments []) (\<lambda>comments.
     Inr (sort_key comment_created_at comments))"

definition construct_gist_description_for_issue_attachments :: "bissue \<Rightarrow> bexport \<Rightarrow> string" where
  "construct_gist_description_for_issue_attachments bissue be =
     ''Attachments for issue #'' @ str_int (issue_id bissue) @ '' of bitbucket repo '' @
     get_repo_full_name be"

definition construct_gist_from_bissue_attachments :: "bissue \<Rightarrow> bexport \<Rightarrow> gist_data option" where
  "construct_gist_from_bissue_attachments bissue be =
     (let battachments = get_issue_attachments be (issue_id bissue)
      in if battachments = [] then None
         else
           (let gist_description = construct_gist_description_for_issue_attachments bissue be
            in Some \<lparr>description = gist_description,
                     files = fold (\<lambda>name gist_files.
                                     AList.update name
                                       (get_issue_attachment_content be (issue_id bissue) name)
                                       gist_files)
                               (map fst battachments) [(''# README.md'', gist_description)]\<rparr>))"

definition construct_gissue_comments_for_changes ::
  "config \<Rightarrow> date_parser \<Rightarrow> bchange list \<Rightarrow> error + gcomment list" where
  "construct_gissue_comments_for_changes cfg time_string_to_date_string bchanges =
     fold_err
       (\<lambda>bchange comments.
          bind_err (construct_gcomment_body_for_change cfg time_string_to_date_string bchange)
            (\<lambda>body.
          if body = [] then Inr comments
          else bind_err (convert_date (change_created_on bchange)) (\<lambda>created_at.
               Inr (comments @ [\<lparr>comment_body = body, comment_created_at = created_at\<rparr>]))))
       bchanges []"

definition construct_gissue_comments_for_activity ::
  "config \<Rightarrow> date_parser \<Rightarrow> activity list \<Rightarrow> error + gcomment list" where
  "construct_gissue_comments_for_activity cfg time_string_to_date_string bactivity =
     fold_err
       (\<lambda>single_activity comments.
          case single_activity of
            Other_activity \<Rightarrow> Inr comments
          | Approval approval_activity \<Rightarrow>
              bind_err (construct_gcomment_body_for_approval_activity cfg
                          time_string_to_date_string approval_activity) (\<lambda>body.
              bind_err (convert_date (approval_date approval_activity)) (\<lambda>created_at.
              Inr (comments @ [\<lparr>comment_body = body, comment_created_at = created_at\<rparr>]))))
       bactivity []"

definition construct_gissue_from_bissue ::
  "config \<Rightarrow> date_parser \<Rightarrow> bissue \<Rightarrow> bexport \<Rightarrow> (int \<Rightarrow> gist option) \<Rightarrow> args \<Rightarrow>
   error + gdata" where
  "construct_gissue_from_bissue cfg time_string_to_date_string bissue be
       attachment_gist_by_issue_id a =
     (let battachments = get_issue_attachments be (issue_id bissue);
          bcomments = get_issue_comments be (issue_id bissue);
          bchanges = get_issue_changes be (issue_id bissue)
      in
      bind_err (construct_gissue_body cfg time_string_to_date_string bissue battachments
                  attachment_gist_by_issue_id a) (\<lambda>body.
      bind_err (construct_gissue_comments cfg time_string_to_date_string bcomments a) (\<lambda>c1.
      bind_err (construct_gissue_comments_for_changes cfg time_string_to_date_string bchanges)
        (\<lambda>c2.
      let comments = sort_key comment_created_at (c1 @ c2);
          labels = map_bkind_to_glabels cfg bissue @ map_bstate_to_glabels cfg (issue_state bissue) @
                   map_bpriority_to_glabels cfg bissue @ map_bcomponent_to_glabels cfg bissue
      in
      bind_err (convert_date (issue_created_on bissue)) (\<lambda>created_at.
      bind_err (convert_date (issue_updated_on bissue)) (\<lambda>updated_at.
      Inr (Issue_data
             \<lparr>issue_title' = issue_title bissue, issue_body = body,
              issue_created_at = created_at, issue_updated_at = updated_at,
              issue_assignee' = map_buser_to_guser cfg (issue_assignee bissue),
              issue_closed = (map_bstate_to_gstate cfg (issue_state bissue) = ''closed''),
              issue_labels = set labels\<rparr>
             comments)))))))"

text \<open>The result is the pair of \<^verbatim>\<open>type\<close> and \<^verbatim>\<open>data\<close>.\<close>

definition construct_gissue_or_gpull_from_bpull ::
  "config \<Rightarrow> date_parser \<Rightarrow> bpull \<Rightarrow> bexport \<Rightarrow> cmap \<Rightarrow> args \<Rightarrow> error + string \<times> gdata" where
  "construct_gissue_or_gpull_from_bpull cfg time_string_to_date_string bpull be cm a =
     (let bcomments = get_pull_comments be (pull_id bpull);
          bactivity = get_pull_activity be (pull_id bpull)
      in
      bind_err (construct_gpull_request_body cfg time_string_to_date_string bpull be cm a) (\<lambda>body.
      bind_err (construct_gissue_comments cfg time_string_to_date_string bcomments a) (\<lambda>c1.
      bind_err (construct_gissue_comments_for_activity cfg time_string_to_date_string bactivity)
        (\<lambda>c2.
      let comments = sort_key comment_created_at (c1 @ c2);
          labels = [''pull request''] @ map_bstate_to_glabels cfg (pull_state bpull);
          is_closed = (map_bstate_to_gstate cfg (pull_state bpull) = ''closed'')
      in
      if is_closed
      then
        bind_err (convert_date (pull_created_on bpull)) (\<lambda>created_at.
        bind_err (convert_date (pull_updated_on bpull)) (\<lambda>updated_at.
        Inr (''issue'',
             Issue_data
               \<lparr>issue_title' = construct_gissue_title_for_pull bpull, issue_body = body,
                issue_created_at = created_at, issue_updated_at = updated_at,
                issue_assignee' = map_buser_to_guser cfg (pull_author bpull),
                issue_closed = is_closed, issue_labels = set labels\<rparr>
               comments)))
      else
        Inr (''pull'',
             Pull_data
               \<lparr>pull_title' = construct_gissue_title_for_pull bpull, pull_body = body,
                pull_assignees = [map_buser_to_guser cfg (pull_author bpull)],
                pull_closed = is_closed, pull_labels = set labels,
                pull_base = ''TODO'', pull_head = ''TODO''\<rparr>
               comments)))))"

section \<open>Destination client and console\<close>

text \<open>
  What a run does to the outside is a list of events: a line printed (the format string
  of the source and its arguments, in order; an argument that is a dict is shown by the
  one field the model keeps of it, or left out), or a call of a writing method of the
  destination client.
\<close>

datatype 'x event =
    Print string "string list"
  | Call_get_or_create_gist_by_description "gist_data option"
  | Call_update_issue_with_comments 'x gdata
  | Call_create_issue_with_comments gdata
  | Call_create_pull_with_comments gdata

text \<open>
  The destination client \<^verbatim>\<open>GithubImport\<close> over a state \<open>'g\<close> of the destination, with
  existing items of type \<open>'x\<close>. The methods that list or count read the state; the
  methods that write return the new state, or raise.
\<close>

record ('g, 'x) gimport =
  get_remaining_rate_limit :: "'g \<Rightarrow> int"
  get_or_create_gist_by_description :: "gist_data option \<Rightarrow> 'g \<Rightarrow> error + gist \<times> 'g"
  existing_issues :: "'g \<Rightarrow> int \<Rightarrow> 'x option"
  existing_pulls :: "'g \<Rightarrow> int \<Rightarrow> 'x option"
  update_issue_with_comments :: "'x \<Rightarrow> gdata \<Rightarrow> 'g \<Rightarrow> error + 'g"
  create_issue_with_comments :: "gdata \<Rightarrow> 'g \<Rightarrow> error + 'g"
  create_pull_with_comments :: "gdata \<Rightarrow> 'g \<Rightarrow> error + 'g"
  get_issues_count :: "'g \<Rightarrow> int"
  get_pulls_count :: "'g \<Rightarrow> int"
  github_repo_full_name :: "'g \<Rightarrow> string"

text \<open>
  A \<^verbatim>\<open>for\<close> loop whose body prints, may change a state and may raise: the events of all
  rounds run, the state reached, and the exception that ended the loop, if any.
\<close>

fun run_steps ::
  "('a \<Rightarrow> 's \<Rightarrow> 'x event list \<times> (error + 's)) \<Rightarrow> 'a list \<Rightarrow> 's \<Rightarrow>
   'x event list \<times> 's \<times> error option" where
  "run_steps f [] s = ([], s, None)"
| "run_steps f (x # xs) s =
     (case f x s of
        (evs, Inl e) \<Rightarrow> (evs, s, Some e)
      | (evs, Inr s') \<Rightarrow>
          (case run_steps f xs s' of (evs', s'', r) \<Rightarrow> (evs @ evs', s'', r)))"

section \<open>Migration reconciler\<close>

text \<open>One round of the loop that migrates attachments.\<close>

definition migrate_attachment ::
  "bexport \<Rightarrow> ('g, 'x) gimport \<Rightarrow> bissue \<Rightarrow> 'g \<times> (int \<Rightarrow> gist option) \<Rightarrow>
   'x event list \<times> (error + 'g \<times> (int \<Rightarrow> gist option))" where
  "migrate_attachment be gi bissue st =
     (case st of (g, attachment_gist_by_issue_id) \<Rightarrow>
        (let issue_id = issue_id bissue;
             line = Print ''Migrate attachments for bitbucket issue #{}... [rate limiting: {}]''
                      [str_int issue_id, str_int (get_remaining_rate_limit gi g)];
             battachments = get_issue_attachments be issue_id
         in if battachments \<noteq> []
            then
              (let gist_data = construct_gist_from_bissue_attachments bissue be
               in ([line, Call_get_or_create_gist_by_description gist_data],
                   (case get_or_create_gist_by_description gi gist_data g of
                      Inl e \<Rightarrow> Inl e
                    | Inr (gist, g') \<Rightarrow>
                        Inr (g', attachment_gist_by_issue_id(issue_id := Some gist)))))
            else ([line], Inr (g, attachment_gist_by_issue_id))))"

text \<open>One round of each of the two loops that prepare the items.\<close>

definition prepare_issue ::
  "config \<Rightarrow> date_parser \<Rightarrow> bexport \<Rightarrow> (int \<Rightarrow> gist option) \<Rightarrow> args \<Rightarrow> bissue \<Rightarrow>
   (string \<times> gdata) list \<Rightarrow> 'x event list \<times> (error + (string \<times> gdata) list)" where
  "prepare_issue cfg dp be attachment_gist_by_issue_id a bissue issues_and_pulls =
     ([Print ''Prepare github issue #{} from bitbucket issue...'' [str_int (issue_id bissue)]],
      bind_err (construct_gissue_from_bissue cfg dp bissue be attachment_gist_by_issue_id a)
        (\<lambda>gissue. Inr (issues_and_pulls @ [(''issue'', gissue)])))"

definition prepare_pull ::
  "config \<Rightarrow> date_parser \<Rightarrow> bexport \<Rightarrow> cmap \<Rightarrow> args \<Rightarrow> int \<Rightarrow> bpull \<Rightarrow>
   (string \<times> gdata) list \<Rightarrow> 'x event list \<times> (error + (string \<times> gdata) list)" where
  "prepare_pull cfg dp be cm a pulls_id_offset bpull issues_and_pulls =
     ([Print ''Prepare github issue #{} from bitbucket pull request...''
         [str_int (pull_id bpull + pulls_id_offset)]],
      bind_err (construct_gissue_or_gpull_from_bpull cfg dp bpull be cm a)
        (\<lambda>gissue_or_gpull. Inr (issues_and_pulls @ [gissue_or_gpull])))"

text \<open>
  One round of the upload loop, for the pair of \<^verbatim>\<open>enumerate\<close>; \<open>upload_number\<close> is its
  \<^verbatim>\<open>number = index + 1\<close>. The maps of existing items were fetched once before the loop.
\<close>

definition upload_number :: "nat \<Rightarrow> int" where
  "upload_number index = int index + 1"

definition upload_item ::
  "('g, 'x) gimport \<Rightarrow> (int \<Rightarrow> 'x option) \<Rightarrow> (int \<Rightarrow> 'x option) \<Rightarrow>
   nat \<times> string \<times> gdata \<Rightarrow> 'g \<Rightarrow> 'x event list \<times> (error + 'g)" where
  "upload_item gi existing_gissues existing_gpulls entry g =
     (case entry of (index, type, data) \<Rightarrow>
        (let number = upload_number index;
             line = Print ''Upload github issue or pull request #{}... [rate limiting: {}]''
                      [str_int number, str_int (get_remaining_rate_limit gi g)]
         in if type = ''issue''
            then (case existing_gissues number of
                    Some existing \<Rightarrow>
                      ([line, Print ''Update github issue #{}...'' [str_int number],
                        Call_update_issue_with_comments existing data],
                       update_issue_with_comments gi existing data g)
                  | None \<Rightarrow>
                      ([line, Print ''Create github issue #{}...'' [str_int number],
                        Call_create_issue_with_comments data],
                       create_issue_with_comments gi data g))
            else if type = ''pull''
            then (case existing_gpulls number of
                    Some existing \<Rightarrow>
                      ([line, Print ''Update github pull request #{}...'' [str_int number],
                        Call_update_issue_with_comments existing data],
                       update_issue_with_comments gi existing data g)
                  | None \<Rightarrow>
                      ([line, Print ''Create github pull request #{}...'' [str_int number],
                        Call_create_pull_with_comments data],
                       create_pull_with_comments gi data g))
            else ([line, Print (''Error: unknown type '{}' for data '{}'' @ [CHR 0x27]) [type]],
                  Inr g)))"

text \<open>The final check of the counts: it prints and never raises.\<close>

definition final_checks ::
  "bexport \<Rightarrow> ('g, 'x) gimport \<Rightarrow> 'g \<Rightarrow> 'x event list" where
  "final_checks be gi g =
     (if int (length (get_issues be)) + int (length (get_pulls be)) \<noteq>
         get_issues_count gi g + get_pulls_count gi g
      then [Print ''Error: the number of Github issues and pull requests seems to be wrong.'' []]
      else [])"

text \<open>
  The run behind the two assertions, in the four parts that the comments of the source
  name. Each returns its events and the exception that ended it, if any.

  Migrate attachments: the state is the destination and \<^verbatim>\<open>attachment_gist_by_issue_id\<close>.
\<close>

definition migrate_attachments ::
  "bexport \<Rightarrow> ('g, 'x) gimport \<Rightarrow> args \<Rightarrow> 'g \<Rightarrow>
   'x event list \<times> ('g \<times> (int \<Rightarrow> gist option)) \<times> error option" where
  "migrate_attachments be gi a g =
     (if skip_attachments a
      then ([Print ''Warning: migration of bitbucket attachments to github has been skipped.'' []],
            (g, (\<lambda>i. None)), None)
      else (case run_steps (migrate_attachment be gi) (get_issues be) (g, (\<lambda>i. None)) of
              (evs, st, r) \<Rightarrow> (Print ''Migrate bitbucket attachments to github...'' [] # evs, st, r)))"

text \<open>Prepare issues: all issues, then all pull requests, appended to \<^verbatim>\<open>issues_and_pulls\<close>.\<close>

definition prepare ::
  "config \<Rightarrow> date_parser \<Rightarrow> bexport \<Rightarrow> cmap \<Rightarrow> args \<Rightarrow> int \<Rightarrow> (int \<Rightarrow> gist option) \<Rightarrow>
   'x event list \<times> (string \<times> gdata) list \<times> error option" where
  "prepare cfg dp be cm a pulls_id_offset attachment_gist_by_issue_id =
     (case run_steps (prepare_issue cfg dp be attachment_gist_by_issue_id a) (get_issues be) [] of
        (ev1, issues, Some e) \<Rightarrow> (Print ''Prepare github issues...'' [] # ev1, issues, Some e)
      | (ev1, issues, None) \<Rightarrow>
          (case run_steps (prepare_pull cfg dp be cm a pulls_id_offset) (get_pulls be) issues of
             (ev2, issues_and_pulls, r) \<Rightarrow>
               (Print ''Prepare github issues...'' [] # ev1 @ ev2, issues_and_pulls, r)))"

text \<open>Upload github issues: the existing items are fetched once, then each item is uploaded.\<close>

definition upload ::
  "('g, 'x) gimport \<Rightarrow> (string \<times> gdata) list \<Rightarrow> 'g \<Rightarrow> 'x event list \<times> 'g \<times> error option" where
  "upload gi issues_and_pulls g =
     (case run_steps (upload_item gi (existing_issues gi g) (existing_pulls gi g))
             (enumerate 0 issues_and_pulls) g of
        (evs, g', r) \<Rightarrow> (Print ''Upload github issues...'' [] # evs, g', r))"

definition migrate ::
  "config \<Rightarrow> date_parser \<Rightarrow> bexport \<Rightarrow> ('g, 'x) gimport \<Rightarrow> cmap \<Rightarrow> args \<Rightarrow> int \<Rightarrow> 'g \<Rightarrow>
   'x event list \<times> 'g \<times> error option" where
  "migrate cfg dp be gi cm a pulls_id_offset g =
     (case migrate_attachments be gi a g of
        (ev1, (g1, attachment_gist_by_issue_id), Some e) \<Rightarrow> (ev1, g1, Some e)
      | (ev1, (g1, attachment_gist_by_issue_id), None) \<Rightarrow>
          (case prepare cfg dp be cm a pulls_id_offset attachment_gist_by_issue_id of
             (ev2, issues_and_pulls, Some e) \<Rightarrow> (ev1 @ ev2, g1, Some e)
           | (ev2, issues_and_pulls, None) \<Rightarrow>
               (case upload gi issues_and_pulls g1 of
                  (ev3, g2, Some e) \<Rightarrow> (ev1 @ ev2 @ ev3, g2, Some e)
                | (ev3, g2, None) \<Rightarrow> (ev1 @ ev2 @ ev3 @ final_checks be gi g2, g2, None))))"

definition bitbucket_to_github ::
  "config \<Rightarrow> date_parser \<Rightarrow> bexport \<Rightarrow> ('g, 'x) gimport \<Rightarrow> cmap \<Rightarrow> args \<Rightarrow> 'g \<Rightarrow>
   'x event list \<times> 'g \<times> error option" where
  "bitbucket_to_github cfg dp be gi cm a g =
     (case map_of (KNOWN_ISSUES_COUNT_MAPPING cfg) (get_repo_full_name be) of
        None \<Rightarrow> ([], g, Some AssertionError)
      | Some issues_count \<Rightarrow>
          if issues_count = int (length (get_issues be))
          then migrate cfg dp be gi cm a issues_count g
          else ([], g, Some AssertionError))"

section \<open>Diagnostic mode\<close>

text \<open>
  The set \<^verbatim>\<open>bnicknames\<close> is a list without repetitions. Python does not fix the order in
  which it iterates over a set; the model takes the order that \<open>List.insert\<close> gives.
\<close>

definition nickname_of :: "buser option \<Rightarrow> error + string" where
  "nickname_of u = (case u of None \<Rightarrow> Inl TypeError | Some v \<Rightarrow> Inr (nickname v))"

definition add_comment_nicknames :: "(int \<times> bcomment) list \<Rightarrow> string list \<Rightarrow> error + string list" where
  "add_comment_nicknames bcomments bnicknames =
     fold_err (\<lambda>(comment_id, bcomment) names.
                 bind_err (nickname_of (comment_user bcomment)) (\<lambda>n. Inr (List.insert n names)))
       bcomments bnicknames"

text \<open>
  One round of the loop over the issues. The state is \<^verbatim>\<open>bnicknames\<close> and the local
  variable \<^verbatim>\<open>bissue_id\<close>, which is unassigned before the first round.
\<close>

definition check_issue ::
  "bexport \<Rightarrow> bissue \<Rightarrow> string list \<times> int option \<Rightarrow>
   'x event list \<times> (error + string list \<times> int option)" where
  "check_issue be bissue st =
     (case st of (bnicknames, last_id) \<Rightarrow>
        (let bissue_id = issue_id bissue;
             names1 = (case issue_assignee bissue of
                         None \<Rightarrow> bnicknames
                       | Some u \<Rightarrow> List.insert (nickname u) bnicknames)
         in ((if bissue_id mod 10 = 0
              then [Print ''Checking bitbucket issue #{}...'' [str_int bissue_id]] else []),
             bind_err (add_comment_nicknames (get_issue_comments be bissue_id) names1)
               (\<lambda>names2. Inr (names2, Some bissue_id)))))"

definition pull_infos :: "bpull \<Rightarrow> 'x event list" where
  "pull_infos bpull =
     (if (repository (source bpull) = None) \<noteq> (commit (source bpull) = None)
      then [Print (''Info: source repository is '{}', but commit is '{}'' @ [CHR 0x27])
              [format_opt (repository (source bpull)), format_opt (commit (source bpull))]]
      else []) @
     (if (repository (destination bpull) = None) \<noteq> (commit (destination bpull) = None)
      then [Print (''Info: destination repository is '{}', but commit is '{}'' @ [CHR 0x27])
              [format_opt (repository (destination bpull)),
               format_opt (commit (destination bpull))]]
      else []) @
     (if repository (destination bpull) = None
      then [Print ''Info: destination repository is None'' []] else []) @
     (if branch (source bpull) = None
      then [Print ''Info: source branch is None'' []] else []) @
     (if branch (destination bpull) = None
      then [Print ''Info: destination branch is None'' []] else [])"

text \<open>
  One round of the loop over the pull requests. It reads the comments of the issue
  \<^verbatim>\<open>bissue_id\<close>, the variable of the loop before; with no issue that variable is unassigned
  and reading it raises \<^verbatim>\<open>UnboundLocalError\<close>.
\<close>

definition check_pull ::
  "bexport \<Rightarrow> int option \<Rightarrow> bpull \<Rightarrow> string list \<Rightarrow> 'x event list \<times> (error + string list)" where
  "check_pull be last_id bpull bnicknames =
     (let bpull_id = pull_id bpull;
          line = (if bpull_id mod 10 = 0
                  then [Print ''Checking bitbucket pull request #{}...'' [str_int bpull_id]]
                  else []);
          names1 = (case pull_author bpull of
                      None \<Rightarrow> bnicknames
                    | Some u \<Rightarrow> List.insert (nickname u) bnicknames)
      in
      (case bind_err
              (fold_err (\<lambda>bparticipant names.
                           bind_err (nickname_of (participant_user bparticipant))
                             (\<lambda>n. Inr (List.insert n names)))
                 (participants bpull) names1) (\<lambda>names2.
            let names3 = fold (\<lambda>breviewer names. List.insert (nickname breviewer) names)
                           (reviewers bpull) names2
            in (case last_id of
                  None \<Rightarrow> Inl UnboundLocalError
                | Some bissue_id \<Rightarrow> add_comment_nicknames (get_issue_comments be bissue_id) names3)) of
         Inl e \<Rightarrow> (line, Inl e)
       | Inr names4 \<Rightarrow> (line @ pull_infos bpull, Inr names4)))"

definition check_counts ::
  "bexport \<Rightarrow> ('g, 'x) gimport \<Rightarrow> 'g \<Rightarrow> 'x event list" where
  "check_counts be gi g =
     (let bissues = get_issues be; bpulls = get_pulls be;
          gissues_count = get_issues_count gi g; gpulls_count = get_pulls_count gi g
      in [Print ''Number of bitbucket issues:'' [str_int (int (length bissues))],
          Print ''Number of bitbucket pull requests:'' [str_int (int (length bpulls))],
          Print ''Number of github issues: {}'' [str_int gissues_count],
          Print ''Number of github pull requests: {}'' [str_int gpulls_count]] @
         (if gissues_count \<noteq> 0
          then [Print ''Warning: the github repository has existing issues, so the migration can't preserve the creation date of issues and pull requests.'' []]
          else []) @
         (if gissues_count + gpulls_count > int (length bissues) + int (length bpulls)
          then [Print ''Error: the github repository has {} issues and pull requests, but the maximum should be {} because the bitbucket repository only has {} issues and {} pull requests.''
                  [str_int gissues_count, str_int (int (length bissues) + int (length bpulls)),
                   str_int (int (length bissues)), str_int (int (length bpulls))]]
          else []))"

text \<open>
  The checks of the two tables. A missing repository is reported; the lookups that follow
  subscript the tables all the same and raise \<^verbatim>\<open>KeyError\<close> on a missing key.
\<close>

definition check_tables ::
  "config \<Rightarrow> bexport \<Rightarrow> ('g, 'x) gimport \<Rightarrow> 'g \<Rightarrow> 'x event list \<times> error option" where
  "check_tables cfg be gi g =
     (let brepo_full_name = get_repo_full_name be;
          grepo_full_name = github_repo_full_name gi g;
          ev1 = (if map_of (KNOWN_ISSUES_COUNT_MAPPING cfg) brepo_full_name = None
                 then [Print ''Error: bitbucket repository '{}' is not configured in KNOWN_ISSUES_COUNT_MAPPING.''
                         [brepo_full_name]]
                 else []);
          ev2 = (if map_of (KNOWN_REPO_MAPPING cfg) brepo_full_name = None
                 then [Print ''Error: bitbucket repository '{}' is not configured in KNOWN_REPO_MAPPING.''
                         [brepo_full_name]]
                 else [])
      in case map_of (KNOWN_ISSUES_COUNT_MAPPING cfg) brepo_full_name of
           None \<Rightarrow> (ev1 @ ev2, Some KeyError)
         | Some issues_count \<Rightarrow>
             (let ev3 = (if issues_count \<noteq> int (length (get_issues be))
                         then [Print ''Error: bitbucket repository '{}' in KNOWN_ISSUES_COUNT_MAPPING maps to '{}', but the actual number of issues is '{}'.''
                                 [brepo_full_name, str_int issues_count,
                                  str_int (int (length (get_issues be)))]]
                         else [])
              in case map_of (KNOWN_REPO_MAPPING cfg) brepo_full_name of
                   None \<Rightarrow> (ev1 @ ev2 @ ev3, Some KeyError)
                 | Some grepo \<Rightarrow>
                     (ev1 @ ev2 @ ev3 @
                      (if grepo \<noteq> grepo_full_name
                       then [Print ''Error: bitbucket repository '{}' in KNOWN_REPO_MAPPING maps to '{}', but the github repository passed by command line is '{}'.''
                               [brepo_full_name, grepo, grepo_full_name]]
                       else []),
                      None)))"

definition check ::
  "config \<Rightarrow> bexport \<Rightarrow> ('g, 'x) gimport \<Rightarrow> args \<Rightarrow> 'g \<Rightarrow> 'x event list \<times> error option" where
  "check cfg be gi a g =
     (case check_tables cfg be gi g of
        (ev1, Some e) \<Rightarrow> (check_counts be gi g @ ev1, Some e)
      | (ev1, None) \<Rightarrow>
          (case run_steps (check_issue be) (get_issues be) ([], None) of
             (ev2, st, Some e) \<Rightarrow> (check_counts be gi g @ ev1 @ ev2, Some e)
           | (ev2, (names, last_id), None) \<Rightarrow>
               (case run_steps (check_pull be last_id) (get_pulls be) names of
                  (ev3, names', Some e) \<Rightarrow> (check_counts be gi g @ ev1 @ ev2 @ ev3, Some e)
                | (ev3, bnicknames, None) \<Rightarrow>
                    (check_counts be gi g @ ev1 @ ev2 @ ev3 @
                     map (\<lambda>nickname.
                            Print ''Warning: bitbucket user '{}' is not configured in USER_MAPPING.''
                              [nickname])
                       (filter (\<lambda>nickname. map_of (USER_MAPPING cfg) nickname = None) bnicknames),
                     None))))"

section \<open>A destination with sequential numbers\<close>

text \<open>
  Modelled from the spec: the destination platform behind \<^verbatim>\<open>GithubImport\<close>, which is not
  among the sources. The spec says of it that its numbering is sequential and starts at
  1 on an empty destination, that its issues and its pull requests are each a mapping
  from the number to the existing item, and that an update keeps the item's number. A
  created item gets the next free number; an existing item is handed out as its number.
  Gists are kept apart from the items, and no call fails.
\<close>

record destination =
  dest_issues :: "(int \<times> gdata) list"
  dest_pulls :: "(int \<times> gdata) list"

definition next_number :: "destination \<Rightarrow> int" where
  "next_number d = int (length (dest_issues d) + length (dest_pulls d)) + 1"

definition replace_item :: "int \<Rightarrow> gdata \<Rightarrow> (int \<times> gdata) list \<Rightarrow> (int \<times> gdata) list" where
  "replace_item n data items = map (\<lambda>(k, v). if k = n then (k, data) else (k, v)) items"

definition sequential_gimport :: "(destination, int) gimport" where
  "sequential_gimport =
     \<lparr>get_remaining_rate_limit = (\<lambda>d. 5000),
      get_or_create_gist_by_description =
        (\<lambda>gist_data d.
           Inr (\<lparr>raw_urls = (case gist_data of
                               None \<Rightarrow> []
                             | Some x \<Rightarrow> map (\<lambda>(name, content). (name, ''https://gist/'' @ name))
                                          (files x))\<rparr>, d)),
      existing_issues = (\<lambda>d n. map_option (\<lambda>v. n) (map_of (dest_issues d) n)),
      existing_pulls = (\<lambda>d n. map_option (\<lambda>v. n) (map_of (dest_pulls d) n)),
      update_issue_with_comments =
        (\<lambda>n data d. Inr (d\<lparr>dest_issues := replace_item n data (dest_issues d),
                            dest_pulls := replace_item n data (dest_pulls d)\<rparr>)),
      create_issue_with_comments =
        (\<lambda>data d. Inr (d\<lparr>dest_issues := dest_issues d @ [(next_number d, data)]\<rparr>)),
      create_pull_with_comments =
        (\<lambda>data d. Inr (d\<lparr>dest_pulls := dest_pulls d @ [(next_number d, data)]\<rparr>)),
      get_issues_count = (\<lambda>d. int (length (dest_issues d))),
      get_pulls_count = (\<lambda>d. int (length (dest_pulls d))),
      github_repo_full_name = (\<lambda>d. ''viperproject/silver'')\<rparr>"

definition empty_destination :: destination where
  "empty_destination = \<lparr>dest_issues = [], dest_pulls = []\<rparr>"

text \<open>The calls among the events of a run, and those of them that create an item.\<close>

fun is_call :: "'x event \<Rightarrow> bool" where
  "is_call (Print fmt xs) = False"
| "is_call e = True"

fun is_create :: "'x event \<Rightarrow> bool" where
  "is_create (Call_create_issue_with_comments data) = True"
| "is_create (Call_create_pull_with_comments data) = True"
| "is_create e = False"

definition count_error :: "'x event" where
  "count_error = Print ''Error: the number of Github issues and pull requests seems to be wrong.'' []"

section \<open>Example data\<close>

text \<open>
  The characters of a repository name on the destination: letters, digits, hyphen,
  underscore, dot, and the slash between owner and name.
\<close>

definition is_repo_char :: "char \<Rightarrow> bool" where
  "is_repo_char c = (is_ascii_letter c \<or> is_digit c \<or> c \<in> set ''-_./'')"

definition example_config :: config where
  "example_config =
     \<lparr>KNOWN_REPO_MAPPING = [(''viperproject/silver'', ''viperproject/silver'')],
      KNOWN_ISSUES_COUNT_MAPPING = [(''viperproject/silver'', 1)],
      USER_MAPPING = [(''alice'', ''abot'')],
      STATE_MAPPING = [(''new'', None), (''MERGED'', Some ''merged'')],
      PRIORITY_MAPPING = [], KIND_MAPPING = [(''bug'', Some ''bug'')], COMPONENT_MAPPING = [],
      OPEN_ISSUE_OR_PULL_REQUEST_STATES = [''new'', ''open'', ''OPEN'']\<rparr>"

definition example_args :: args where
  "example_args =
     \<lparr>bitbucket_repository = ''viperproject/silver'', github_repository = ''viperproject/silver'',
      skip_attachments = False\<rparr>"

text \<open>A stand-in for \<^verbatim>\<open>dateutil\<close> on timestamps of the form \<^verbatim>\<open>2012-11-26T09:59:39+00:00\<close>.\<close>

definition example_date_parser :: date_parser where
  "example_date_parser s =
     (if date_at s then Inr (take 10 s @ '' '' @ take 5 (drop 11 s)) else Inl PlatformError)"

definition example_cmap :: cmap where
  "example_cmap =
     \<lparr>convert_branch_name = (\<lambda>b repo. b), convert_commit_hash = (\<lambda>h. Some (''g'' @ h))\<rparr>"

definition example_issue :: bissue where
  "example_issue =
     \<lparr>issue_id = 1, issue_title = ''Crash'', issue_raw = Some ''see @alice'',
      issue_reporter = Some \<lparr>nickname = ''bob''\<rparr>, issue_assignee = None,
      issue_state = ''new'', issue_priority = ''major'', issue_kind = ''bug'',
      issue_component = None,
      issue_created_on = ''2012-11-26T09:59:39+00:00'',
      issue_updated_on = ''2012-11-26T09:59:39+00:00''\<rparr>"

text \<open>A pull request from a branch of the repository itself, as the export gives it.\<close>

definition example_pull :: bpull where
  "example_pull =
     \<lparr>pull_id = 1, pull_title = ''Fix'', pull_description = Some ''fixes it'',
      pull_author = Some \<lparr>nickname = ''alice''\<rparr>, pull_state = ''OPEN'',
      pull_created_on = ''2012-11-27T10:00:00+00:00'',
      pull_updated_on = ''2012-11-27T10:00:00+00:00'',
      participants = [], reviewers = [],
      source = \<lparr>repository = Some ''viperproject/silver'', branch = Some ''fix'',
                commit = Some ''abc''\<rparr>,
      destination = \<lparr>repository = Some ''viperproject/silver'', branch = Some ''default'',
                     commit = Some ''def''\<rparr>,
      merge_commit = None\<rparr>"

definition example_bexport :: bexport where
  "example_bexport =
     \<lparr>get_repo_full_name = ''viperproject/silver'',
      get_issues = [example_issue],
      get_pulls = [example_pull],
      get_issue_attachments = (\<lambda>i. []),
      get_issue_attachment_content = (\<lambda>i name. []),
      get_issue_comments = (\<lambda>i. []),
      get_issue_changes = (\<lambda>i. []),
      get_pull_comments = (\<lambda>i. []),
      get_pull_activity = (\<lambda>i. [])\<rparr>"

text \<open>
  A pull request whose source is a branch of the repository itself: the export gives
  neither a source repository nor a source commit.
\<close>

definition branch_pull :: bpull where
  "branch_pull =
     example_pull\<lparr>source := \<lparr>repository = None, branch = Some ''fix'', commit = None\<rparr>\<rparr>"

text \<open>A configuration in which the repository has no issue count.\<close>

definition unconfigured :: config where
  "unconfigured = example_config\<lparr>KNOWN_ISSUES_COUNT_MAPPING := []\<rparr>"

text \<open>
  A repository with one open pull request and no issue, configured so, and a destination
  that already holds an issue at number 1.
\<close>

definition pulls_only_config :: config where
  "pulls_only_config =
     example_config\<lparr>KNOWN_ISSUES_COUNT_MAPPING := [(''viperproject/silver'', 0)]\<rparr>"

definition pulls_only_bexport :: bexport where
  "pulls_only_bexport = example_bexport\<lparr>get_issues := []\<rparr>"

definition occupied_destination :: destination where
  "occupied_destination =
     \<lparr>dest_issues =
        [(1, Issue_data
               \<lparr>issue_title' = ''Welcome'', issue_body = ''first'',
                issue_created_at = ''2012-11-20T08:00:00Z'',
                issue_updated_at = ''2012-11-20T08:00:00Z'',
                issue_assignee' = None, issue_closed = False, issue_labels = {}\<rparr> [])],
      dest_pulls = []\<rparr>"

section \<open>Lemmas\<close>

text \<open>
  Facts about the matchers and the substitution, the loops of the run, the destination
  with sequential numbers and the example data, on which the theorems of the last
  section rest.
\<close>

lemma strip_prefix_Some: "strip_prefix p s = Some t \<Longrightarrow> s = p @ t"
  by (induction p s rule: strip_prefix.induct) (auto split: if_splits)

lemma strip_prefix_append: "strip_prefix p (p @ t) = Some t"
  by (induction p) auto

lemma re_sub_no_match:
  "(\<And>p t. set t \<subseteq> set s \<Longrightarrow> m p t = None) \<Longrightarrow> re_sub m r 0 prev s = s"
proof (induction s arbitrary: prev)
  case Nil
  then show ?case by simp
next
  case (Cons c cs)
  have "m prev (c # cs) = None" using Cons.prems by blast
  moreover have "re_sub m r 0 (Some c) cs = cs"
    using Cons.prems by (intro Cons.IH) auto
  ultimately show ?case by simp
qed

lemma re_sub_raising_no_match:
  "(\<And>p t. set t \<subseteq> set s \<Longrightarrow> m p t = None) \<Longrightarrow> re_sub_raising m r 0 prev s = Inr s"
proof (induction s arbitrary: prev)
  case Nil
  then show ?case by simp
next
  case (Cons c cs)
  have "m prev (c # cs) = None" using Cons.prems by blast
  moreover have "re_sub_raising m r 0 (Some c) cs = Inr cs"
    using Cons.prems by (intro Cons.IH) auto
  ultimately show ?case by simp
qed

lemma match_reference_Some:
  "match_reference w s = Some (nr, rest) \<Longrightarrow>
     s = w @ '' #'' @ nr @ ''/i'' @ rest \<and> nr \<noteq> [] \<and> nr = takeWhile is_digit (nr @ ''/i'' @ rest)"
  apply (auto simp: match_reference_def split: option.splits if_splits dest!: strip_prefix_Some)
  apply (metis takeWhile_dropWhile_id append_assoc)
  by (metis takeWhile_dropWhile_id)

lemma first_alt_None: "(\<And>x. x \<in> set xs \<Longrightarrow> f x = None) \<Longrightarrow> first_alt f xs = None"
  by (induction xs) auto

lemma first_alt_Some: "first_alt f xs = Some y \<Longrightarrow> \<exists>x\<in>set xs. f x = Some y"
  by (induction xs) (auto split: option.splits)

lemma match_bracket_Some: "match_bracket s = Some rest \<Longrightarrow> \<exists>t. s = CHR ''['' # t"
  by (auto simp: match_bracket_def split: list.splits if_splits)

lemma match_implicit_link_needs:
  assumes "match_implicit_link w names p s = Some g"
  shows "CHR ''['' \<in> set s \<or> (CHR ''#'' \<in> set s \<and> CHR ''/'' \<in> set s)"
proof (cases "match_bracket s")
  case (Some rest)
  then show ?thesis by (auto dest: match_bracket_Some)
next
  case None
  show ?thesis
  proof (cases "first_alt
                  (\<lambda>name.
                     case strip_prefix name s of
                       None \<Rightarrow> None
                     | Some s1 \<Rightarrow>
                         (case match_reference w s1 of
                            None \<Rightarrow> None
                          | Some (nr, rest) \<Rightarrow>
                              Some \<lparr>group0 = matched s rest, group1 = Some name,
                                    group2 = Some nr\<rparr>))
                  names")
    case (Some g')
    then obtain name s1 nr rest where "strip_prefix name s = Some s1" "match_reference w s1 = Some (nr, rest)"
      by (auto dest!: first_alt_Some split: option.splits)
    then show ?thesis by (auto dest!: strip_prefix_Some match_reference_Some)
  next
    case N2: None
    with None assms obtain nr rest where "match_reference w s = Some (nr, rest)"
      by (auto simp: match_implicit_link_def split: option.splits)
    then show ?thesis by (auto dest!: match_reference_Some)
  qed
qed

lemma match_implicit_link_None:
  "(CHR ''['' \<notin> set s) \<Longrightarrow> (CHR ''#'' \<notin> set s \<or> CHR ''/'' \<notin> set s) \<Longrightarrow> match_implicit_link w names p s = None"
  using match_implicit_link_needs[of w names p s] by (cases "match_implicit_link w names p s") auto

lemma see_issue_unchanged: "replace_implicit_links_to_issues cfg a ''see issue #4'' = ''see issue #4''"
  unfolding replace_implicit_links_to_issues_def IMPLICIT_ISSUE_LINK_RE_def
  by (rule re_sub_no_match, rule match_implicit_link_None) auto

lemma bracketed_unchanged: "replace_implicit_links_to_issues cfg a ''[issue #4 of X]'' = ''[issue #4 of X]''"
  by (simp add: replace_implicit_links_to_issues_def IMPLICIT_ISSUE_LINK_RE_def
      match_implicit_link_def match_bracket_def matched_def implicit_replace_issue_link_def newline_def)

lemma re_sub_raising_skip_all: "length s \<le> k \<Longrightarrow> re_sub_raising m r k prev s = Inr []"
proof (induction s arbitrary: k prev)
  case Nil then show ?case by simp
next
  case (Cons c cs)
  then obtain k' where "k = Suc k'" by (cases k) auto
  with Cons show ?case by simp
qed

lemma match_reference_length:
  "match_reference w s = Some x \<Longrightarrow> length w + 5 \<le> length s"
  by (cases x) (auto dest!: match_reference_Some simp: length_greater_0_conv[symmetric] simp del: length_greater_0_conv)

lemma repo_names_nonempty: "name \<in> set (repo_names cfg) \<Longrightarrow> name \<noteq> []"
  by (auto simp: repo_names_def)

lemma pr_match: "IMPLICIT_PR_LINK_RE cfg p ''pull request #3/i'' =
   Some \<lparr>group0 = ''pull request #3/i'', group1 = None, group2 = Some ''3''\<rparr>"
proof -
  have "first_alt
          (\<lambda>name.
             case strip_prefix name ''pull request #3/i'' of
               None \<Rightarrow> None
             | Some s1 \<Rightarrow>
                 (case match_reference ''pull request'' s1 of
                    None \<Rightarrow> None
                  | Some (nr, rest) \<Rightarrow>
                      Some \<lparr>group0 = matched ''pull request #3/i'' rest, group1 = Some name,
                            group2 = Some nr\<rparr>))
          (repo_names cfg) = None"
  proof (rule first_alt_None)
    fix name assume n: "name \<in> set (repo_names cfg)"
    show "(case strip_prefix name ''pull request #3/i'' of
               None \<Rightarrow> None
             | Some s1 \<Rightarrow>
                 (case match_reference ''pull request'' s1 of
                    None \<Rightarrow> None
                  | Some (nr, rest) \<Rightarrow>
                      Some \<lparr>group0 = matched ''pull request #3/i'' rest, group1 = Some name,
                            group2 = Some nr\<rparr>)) = None"
    proof (cases "strip_prefix name ''pull request #3/i''")
      case None then show ?thesis by simp
    next
      case (Some s1)
      then have "''pull request #3/i'' = name @ s1" by (rule strip_prefix_Some)
      then have "length ''pull request #3/i'' = length (name @ s1)" by (rule arg_cong)
      then have "length name + length s1 = 17" by simp
      moreover have "name \<noteq> []" using n by (rule repo_names_nonempty)
      ultimately have "length s1 < 17" by (cases name) auto
      then have "match_reference ''pull request'' s1 = None"
        using match_reference_length[of "''pull request''" s1] by (cases "match_reference ''pull request'' s1") auto
      with Some show ?thesis by simp
    qed
  qed
  then show ?thesis
    by (simp add: IMPLICIT_PR_LINK_RE_def match_implicit_link_def match_bracket_def
        match_reference_def matched_def is_digit_def)
qed

lemma find_repo_by_name_None: "find_repo_by_name cfg None = None"
  by (auto simp: find_repo_by_name_def find_None_iff)

lemma implicit_pr_reference_slash_i: "replace_implicit_links_to_prs cfg a ''pull request #3/i'' =
     (case map_of (KNOWN_ISSUES_COUNT_MAPPING cfg) (bitbucket_repository a) of
        None \<Rightarrow> Inr ''pull request #3/i''
      | Some issues_count \<Rightarrow> Inl TypeError)"
  apply (simp add: replace_implicit_links_to_prs_def pr_match implicit_replace_pr_link_def
        find_repo_by_name_None  split: option.splits)
  done

lemma mention_rewritten_twice: "map_content example_config example_args ''@bob'' = Inr ''@ignore_bob'' \<and>
   map_content example_config example_args ''@ignore_bob'' = Inr ''@ignore_ignore_bob''"
  by (simp add: map_content_def example_config_def example_args_def
      replace_explicit_links_to_issues_def EXPLICIT_ISSUE_LINK_RE_def match_explicit_link_def
      replace_implicit_links_to_issues_def IMPLICIT_ISSUE_LINK_RE_def match_implicit_link_def
      match_bracket_def match_reference_def repo_names_def last_component_def
      replace_explicit_links_to_prs_def EXPLICIT_PR_LINK_RE_def
      replace_implicit_links_to_prs_def IMPLICIT_PR_LINK_RE_def
      replace_links_to_users_def MENTION_RE_def mention_position_def is_handle_char_def
      is_ascii_letter_def is_digit_def is_word_def replace_user_def lookup_user_def format_opt_def)

lemma match_explicit_link_needs:
  "match_explicit_link w repos p s = Some g \<Longrightarrow> CHR '':'' \<in> set s"
proof -
  assume "match_explicit_link w repos p s = Some g"
  then obtain s1 where "strip_prefix ''https://bitbucket'' s = Some s1"
    by (auto simp: match_explicit_link_def split: option.splits)
  then have "s = ''https://bitbucket'' @ s1" by (rule strip_prefix_Some)
  then show ?thesis by simp
qed

lemma match_explicit_link_None:
  "CHR '':'' \<notin> set s \<Longrightarrow> match_explicit_link w repos p s = None"
  using match_explicit_link_needs[of w repos p s] by (cases "match_explicit_link w repos p s") auto

lemma MENTION_RE_None: "CHR ''@'' \<notin> set s \<Longrightarrow> MENTION_RE p s = None"
  by (auto simp: MENTION_RE_def split: list.splits)

lemma not_repo_char:
  "\<not> is_repo_char CHR '':''" "\<not> is_repo_char CHR ''[''" "\<not> is_repo_char CHR ''#''"
  "\<not> is_repo_char CHR ''@''"
  by (simp_all add: is_repo_char_def is_ascii_letter_def is_digit_def)

lemma not_digit:
  "\<not> is_digit CHR '':''" "\<not> is_digit CHR ''[''" "\<not> is_digit CHR ''#''"
  "\<not> is_digit CHR ''@''" "\<not> is_digit CHR ''/''"
  by (simp_all add: is_digit_def)

lemma repo_char_facts:
  assumes "list_all is_repo_char grepo"
  shows "CHR '':'' \<notin> set grepo" "CHR ''['' \<notin> set grepo" "CHR ''#'' \<notin> set grepo"
    "CHR ''@'' \<notin> set grepo"
  using assms not_repo_char unfolding list_all_iff by blast+

lemma digit_facts:
  assumes "list_all is_digit nr"
  shows "CHR '':'' \<notin> set nr" "CHR ''['' \<notin> set nr" "CHR ''#'' \<notin> set nr"
    "CHR ''@'' \<notin> set nr"
  using assms not_digit unfolding list_all_iff by blast+

lemma explicit_stable:
  assumes "CHR '':'' \<notin> set rest"
  shows "re_sub (match_explicit_link w repos) r 0 None (''https://github.com/'' @ rest) =
           ''https://github.com/'' @ rest"
proof -
  have "re_sub (match_explicit_link w repos) r 0 (Some CHR ''/'') rest = rest"
    using assms by (intro re_sub_no_match match_explicit_link_None) auto
  then show ?thesis
    by (simp add: match_explicit_link_def)
qed

lemma dest_link_stable:
  assumes "CHR '':'' \<notin> set rest" "CHR ''['' \<notin> set rest" "CHR ''#'' \<notin> set rest"
    "CHR ''@'' \<notin> set rest"
  shows "map_content cfg a (''https://github.com/'' @ rest) = Inr (''https://github.com/'' @ rest)"
proof -
  let ?s = "''https://github.com/'' @ rest"
  have s: "CHR ''['' \<notin> set ?s" "CHR ''#'' \<notin> set ?s" "CHR ''@'' \<notin> set ?s"
    using assms by simp_all
  have 1: "replace_explicit_links_to_issues cfg ?s = ?s"
    unfolding replace_explicit_links_to_issues_def EXPLICIT_ISSUE_LINK_RE_def
    using assms(1) by (rule explicit_stable)
  have 2: "replace_implicit_links_to_issues cfg a ?s = ?s"
    unfolding replace_implicit_links_to_issues_def IMPLICIT_ISSUE_LINK_RE_def
    using s by (intro re_sub_no_match match_implicit_link_None) blast+
  have 3: "replace_explicit_links_to_prs cfg ?s = ?s"
    unfolding replace_explicit_links_to_prs_def EXPLICIT_PR_LINK_RE_def
    using assms(1) by (rule explicit_stable)
  have 4: "replace_implicit_links_to_prs cfg a ?s = Inr ?s"
    unfolding replace_implicit_links_to_prs_def IMPLICIT_PR_LINK_RE_def
    using s by (intro re_sub_raising_no_match match_implicit_link_None) blast+
  have 5: "replace_links_to_users cfg ?s = ?s"
    unfolding replace_links_to_users_def
    using s by (intro re_sub_no_match MENTION_RE_None) blast
  show ?thesis
    unfolding map_content_def Let_def 1 2 3 4 using 5 by simp
qed

lemma takeWhile_stop: "\<not> P x \<Longrightarrow> takeWhile P (t @ x # w) = takeWhile P t"
  by (induction t) auto

lemma dropWhile_stop:
  "\<not> P x \<Longrightarrow> dropWhile P (t @ x # w) = dropWhile P t @ x # w"
  by (induction t) auto

lemma not_handle_at: "\<not> is_handle_char CHR ''@''" "\<not> is_braced_char CHR ''@''"
  by (simp_all add: is_handle_char_def is_braced_char_def is_ascii_letter_def is_digit_def)

lemma matched_append:
  "length rest \<le> length s \<Longrightarrow> matched (s @ v) (rest @ v) = matched s rest"
  by (simp add: matched_def)

lemma length_dropWhile_le': "dropWhile P u = e # rest \<Longrightarrow> length rest \<le> length u"
  by (metis length_dropWhile_le length_Cons Suc_leD)

lemma MENTION_RE_within:
  assumes "u \<noteq> []"
  shows "MENTION_RE prev (u @ CHR ''@'' # w) = MENTION_RE prev u"
proof (cases u)
  case Nil
  with assms show ?thesis by simp
next
  case (Cons c t)
  show ?thesis
  proof (cases "mention_position prev \<and> c = CHR ''@''")
    case False
    then show ?thesis by (auto simp: MENTION_RE_def Cons)
  next
    case True
    note pos = this
    show ?thesis
    proof (cases "takeWhile is_handle_char t = []")
      case False
      then show ?thesis
        using pos by (simp add: MENTION_RE_def Cons takeWhile_stop not_handle_at)
    next
      case tw: True
      show ?thesis
      proof (cases t)
        case Nil
        then show ?thesis using pos by (simp add: MENTION_RE_def Cons not_handle_at)
      next
        case t: (Cons b v)
        show ?thesis
        proof (cases "b = CHR ''{'' \<and> takeWhile is_braced_char v \<noteq> []")
          case False
          then show ?thesis
            using pos tw by (auto simp: MENTION_RE_def Cons t takeWhile_stop not_handle_at)
        next
          case br: True
          have nh: "\<not> is_handle_char b" using tw t by (auto split: if_splits)
          have b: "b = CHR ''{''" and nb: "takeWhile is_braced_char v \<noteq> []" using br by auto
          show ?thesis
          proof (cases "dropWhile is_braced_char v")
            case Nil
            show ?thesis
              using pos
              by (simp add: MENTION_RE_def Cons t nh nb Nil takeWhile_stop dropWhile_stop
                  not_handle_at flip: b)
          next
            case dw: (Cons e rest)
            have le: "length rest \<le> length v" using dw by (rule length_dropWhile_le')
            have m1: "matched (x # y # v @ CHR ''@'' # w) (rest @ CHR ''@'' # w) = matched (x # y # v) rest"
              for x y
              using matched_append[of rest "x # y # v" "CHR ''@'' # w"] le by simp
            have m2: "matched (y # v @ CHR ''@'' # w) (rest @ CHR ''@'' # w) = matched (y # v) rest"
              for y
              using matched_append[of rest "y # v" "CHR ''@'' # w"] le by simp
            show ?thesis
              using pos
              by (simp add: MENTION_RE_def Cons t nh nb dw m1 m2 takeWhile_stop dropWhile_stop
                  not_handle_at)
          qed
        qed
      qed
    qed
  qed
qed

lemma matched_length: "length (matched s rest) \<le> length s"
  by (simp add: matched_def)

lemma MENTION_RE_length:
  "MENTION_RE p u = Some g \<Longrightarrow> length (group0 g) \<le> length u"
  using matched_length[of u]
  by (auto simp: MENTION_RE_def split: if_splits list.splits
      intro: le_trans[OF length_takeWhile_le])

lemma re_sub_mention_append:
  "k \<le> length pre \<Longrightarrow>
   re_sub MENTION_RE r k prev (pre @ CHR ''@'' # w) =
     re_sub MENTION_RE r k prev pre @
     re_sub MENTION_RE r 0 (if pre = [] then prev else Some (last pre)) (CHR ''@'' # w)"
proof (induction pre arbitrary: k prev)
  case Nil
  then show ?case by simp
next
  case (Cons c cs)
  show ?case
  proof (cases k)
    case (Suc k')
    then have "k' \<le> length cs" using Cons.prems by simp
    from Cons.IH[OF this, of "Some c"] show ?thesis using Suc by simp
  next
    case 0
    have eq: "MENTION_RE prev ((c # cs) @ CHR ''@'' # w) = MENTION_RE prev (c # cs)"
      by (rule MENTION_RE_within) simp
    show ?thesis
    proof (cases "MENTION_RE prev (c # cs)")
      case None
      then show ?thesis using 0 eq Cons.IH[of 0 "Some c"] by simp
    next
      case (Some g)
      then have "length (group0 g) - 1 \<le> length cs"
        using MENTION_RE_length[OF Some] by simp
      from Cons.IH[OF this, of "Some c"] show ?thesis using 0 eq Some by simp
    qed
  qed
qed

lemma re_sub_skip:
  "re_sub m r (length xs) prev (xs @ ys) =
     re_sub m r 0 (if xs = [] then prev else Some (last xs)) ys"
  by (induction xs arbitrary: prev) auto

lemma MENTION_RE_handle:
  assumes "mention_position p" "h \<noteq> []" "list_all is_handle_char h"
    "post = [] \<or> \<not> is_handle_char (hd post)"
  shows "MENTION_RE p (CHR ''@'' # h @ post) =
           Some \<lparr>group0 = CHR ''@'' # h, group1 = Some h, group2 = None\<rparr>"
proof -
  have "takeWhile is_handle_char post = []"
    using assms(4) by (cases post) auto
  then have "takeWhile is_handle_char (h @ post) = h"
    using assms(3) by (simp add: takeWhile_append2 list_all_iff)
  then show ?thesis
    using assms(1,2) by (simp add: MENTION_RE_def)
qed

lemma matched_prefix: "matched (xs @ rest) rest = xs"
  by (simp add: matched_def)

lemma MENTION_RE_braced:
  assumes "mention_position p" "b \<noteq> []" "list_all is_braced_char b"
  shows "MENTION_RE p (CHR ''@'' # (CHR ''{'' # b @ ''}'') @ post) =
           Some \<lparr>group0 = CHR ''@'' # CHR ''{'' # b @ ''}'', group1 = Some (CHR ''{'' # b @ ''}''),
                 group2 = None\<rparr>"
proof -
  have nb: "\<not> is_braced_char CHR ''}''" "\<not> is_handle_char CHR ''{''"
    by (simp_all add: is_braced_char_def is_handle_char_def is_ascii_letter_def is_digit_def)
  have all: "\<forall>x\<in>set b. is_braced_char x" using assms(3) by (simp add: list_all_iff)
  have tw: "takeWhile is_braced_char (b @ CHR ''}'' # post) = b"
    using all nb by (simp add: takeWhile_append2)
  have dw: "dropWhile is_braced_char (b @ CHR ''}'' # post) = CHR ''}'' # post"
    using all nb by (simp add: dropWhile_append2)
  have m1: "matched (CHR ''@'' # CHR ''{'' # b @ CHR ''}'' # post) post = CHR ''@'' # CHR ''{'' # b @ ''}''"
    using matched_prefix[of "CHR ''@'' # CHR ''{'' # b @ ''}''" post] by simp
  have m2: "matched (CHR ''{'' # b @ CHR ''}'' # post) post = CHR ''{'' # b @ ''}''"
    using matched_prefix[of "CHR ''{'' # b @ ''}''" post] by simp
  show ?thesis
    using assms(1,2) nb by (simp add: MENTION_RE_def tw dw m1 m2)
qed

lemma mention_rewritten:
  assumes "tok \<noteq> []"
    and "MENTION_RE (if pre = [] then None else Some (last pre)) (CHR ''@'' # tok @ post) =
           Some \<lparr>group0 = CHR ''@'' # tok, group1 = Some tok, group2 = None\<rparr>"
  shows "replace_links_to_users cfg (pre @ CHR ''@'' # tok @ post) =
           replace_links_to_users cfg pre @ ''@'' @ lookup_user cfg tok @
           re_sub MENTION_RE (replace_user cfg) 0 (Some (last tok)) post"
proof -
  let ?q = "if pre = [] then None else Some (last pre)"
  let ?r = "replace_user cfg"
  have "re_sub MENTION_RE ?r 0 None (pre @ CHR ''@'' # tok @ post) =
          re_sub MENTION_RE ?r 0 None pre @ re_sub MENTION_RE ?r 0 ?q (CHR ''@'' # tok @ post)"
    by (rule re_sub_mention_append) simp
  moreover have "re_sub MENTION_RE ?r 0 ?q (CHR ''@'' # tok @ post) =
          ''@'' @ lookup_user cfg tok @ re_sub MENTION_RE ?r (length tok) (Some CHR ''@'') (tok @ post)"
    using assms(2) by (simp add: replace_user_def format_opt_def)
  moreover have "re_sub MENTION_RE ?r (length tok) (Some CHR ''@'') (tok @ post) =
          re_sub MENTION_RE ?r 0 (Some (last tok)) post"
    using assms(1) by (simp add: re_sub_skip)
  ultimately show ?thesis
    by (simp add: replace_links_to_users_def)
qed

lemma mention_position_pre:
  "pre = [] \<or> \<not> is_word (last pre) \<Longrightarrow>
   mention_position (if pre = [] then None else Some (last pre))"
  by (auto simp: mention_position_def)

lemma migrate_attachments_first:
  "\<exists>evs. fst (migrate_attachments be gi a g) =
      (if skip_attachments a
       then Print ''Warning: migration of bitbucket attachments to github has been skipped.'' []
       else Print ''Migrate bitbucket attachments to github...'' []) # evs"
  by (simp add: migrate_attachments_def split: prod.splits)

lemma migrate_first:
  "\<exists>evs. fst (migrate cfg dp be gi cm a n g) =
      (if skip_attachments a
       then Print ''Warning: migration of bitbucket attachments to github has been skipped.'' []
       else Print ''Migrate bitbucket attachments to github...'' []) # evs"
proof -
  obtain ev1 g1 gists r where m: "migrate_attachments be gi a g = (ev1, (g1, gists), r)"
    by (metis prod.exhaust)
  obtain evs where e: "ev1 = (if skip_attachments a
       then Print ''Warning: migration of bitbucket attachments to github has been skipped.'' []
       else Print ''Migrate bitbucket attachments to github...'' []) # evs"
    using migrate_attachments_first[of be gi a g] m by auto
  show ?thesis
    unfolding migrate_def m e
    by (simp split: option.splits prod.splits)
qed

lemma source_section_unassigned:
  assumes "repository src = None" and "commit src = None"
  shows "source_section cfg be cm src =
           (case branch src of
              None \<Rightarrow> Inl TypeError
            | Some b \<Rightarrow>
                Inr (''> Source: branch [`'' @ convert_branch_name cm b None @
                     ''`](https://github.com/'' @
                     format_opt (map_brepo_to_grepo cfg (get_repo_full_name be)) @ ''/tree/'' @
                     convert_branch_name cm b None @ '')'' @ NL, None))"
  using assms by (simp add: source_section_def concat_str_def Let_def split: option.splits)

lemma destination_section_unassigned:
  "destination_section cfg cm dst None =
     (case repository dst of
        None \<Rightarrow> Inl TypeError
      | Some r \<Rightarrow>
          (case branch dst of
             None \<Rightarrow> Inl TypeError
           | Some b \<Rightarrow> (case commit dst of None \<Rightarrow> Inl TypeError | Some c \<Rightarrow> Inl UnboundLocalError)))"
  by (simp add: destination_section_def concat_str_def Let_def split: option.splits)

lemma bind_err_Inl: "(\<And>x. \<exists>e. f x = Inl e) \<Longrightarrow> \<exists>e. bind_err m f = Inl e"
  by (cases m) auto

lemma bind_err_Inl': "\<exists>e. m = Inl e \<Longrightarrow> \<exists>e. bind_err m f = Inl e"
  by auto

lemma destination_section_None: "\<exists>e. destination_section cfg cm dst None = Inl e"
  by (simp add: destination_section_unassigned split: option.splits)

lemma after_source_unassigned:
  assumes "repository src = None" and "commit src = None"
  shows "\<exists>e. bind_err (source_section cfg be cm src)
               (\<lambda>(sb5, source_ghash). bind_err (destination_section cfg cm dst source_ghash) (K sb5 source_ghash)) = Inl e"
proof (cases "branch src")
  case None
  then show ?thesis by (simp add: source_section_unassigned[OF assms])
next
  case (Some b)
  obtain e where "destination_section cfg cm dst None = Inl e"
    using destination_section_None by blast
  then show ?thesis by (simp add: source_section_unassigned[OF assms] Some)
qed

lemma check_tables_missing:
  assumes "map_of (KNOWN_ISSUES_COUNT_MAPPING cfg) (get_repo_full_name be) = None \<or>
           map_of (KNOWN_REPO_MAPPING cfg) (get_repo_full_name be) = None"
  shows "snd (check_tables cfg be gi g) = Some KeyError"
  using assms by (auto simp: check_tables_def Let_def split: option.splits)

lemma check_tables_reports:
  "(map_of (KNOWN_ISSUES_COUNT_MAPPING cfg) (get_repo_full_name be) = None \<longrightarrow>
      Print ''Error: bitbucket repository '{}' is not configured in KNOWN_ISSUES_COUNT_MAPPING.''
        [get_repo_full_name be] \<in> set (fst (check_tables cfg be gi g))) \<and>
   (map_of (KNOWN_REPO_MAPPING cfg) (get_repo_full_name be) = None \<longrightarrow>
      Print ''Error: bitbucket repository '{}' is not configured in KNOWN_REPO_MAPPING.''
        [get_repo_full_name be] \<in> set (fst (check_tables cfg be gi g)))"
  by (auto simp: check_tables_def Let_def split: option.splits)

lemma check_raises:
  "check_tables cfg be gi g = (ev, Some e) \<Longrightarrow>
     check cfg be gi a g = (check_counts be gi g @ ev, Some e)"
  by (simp add: check_def)

lemma run_steps_events:
  assumes "\<And>x s. e \<notin> set (fst (f x s))"
  shows "e \<notin> set (fst (run_steps f xs s))"
proof (induction xs arbitrary: s)
  case Nil
  then show ?case by simp
next
  case (Cons x xs)
  obtain evs r where f: "f x s = (evs, r)" by (cases "f x s")
  have e: "e \<notin> set evs" using assms[of x s] f by simp
  show ?case
  proof (cases r)
    case (Inl err)
    then show ?thesis using f e by simp
  next
    case (Inr s')
    obtain evs' s'' r' where rs: "run_steps f xs s' = (evs', s'', r')"
      by (cases "run_steps f xs s'") auto
    have "e \<notin> set evs'" using Cons.IH[of s'] rs by simp
    then show ?thesis using f e Inr rs by simp
  qed
qed

lemma migrate_attachment_no_count_error:
  "count_error \<notin> set (fst (migrate_attachment be gi b st))"
  by (cases st) (simp add: migrate_attachment_def count_error_def Let_def)

lemma prepare_issue_no_count_error:
  "count_error \<notin> set (fst (prepare_issue cfg dp be gists a b items))"
  by (simp add: prepare_issue_def count_error_def)

lemma prepare_pull_no_count_error:
  "count_error \<notin> set (fst (prepare_pull cfg dp be cm a n b items))"
  by (simp add: prepare_pull_def count_error_def)

lemma upload_item_no_count_error:
  "count_error \<notin> set (fst (upload_item gi eis eps entry g))"
  by (cases entry) (simp add: upload_item_def count_error_def Let_def split: option.splits)

lemma migrate_attachments_no_count_error:
  "(count_error :: 'x event) \<notin> set (fst (migrate_attachments be gi a g))"
proof -
  have "(count_error :: 'x event) \<notin>
          set (fst (run_steps (migrate_attachment be gi) (get_issues be) (g, (\<lambda>i. None))))"
    by (rule run_steps_events[OF migrate_attachment_no_count_error])
  then show ?thesis
    by (auto simp: migrate_attachments_def count_error_def split: prod.splits)
qed

lemma prepare_no_count_error:
  "(count_error :: 'x event) \<notin> set (fst (prepare cfg dp be cm a n gists))"
proof -
  obtain ev1 :: "'x event list" and issues r1
    where 1: "run_steps (prepare_issue cfg dp be gists a) (get_issues be) [] = (ev1, issues, r1)"
    by (cases "run_steps (prepare_issue cfg dp be gists a :: _ \<Rightarrow> _ \<Rightarrow> 'x event list \<times> _) (get_issues be) []") auto
  obtain ev2 :: "'x event list" and items r2
    where 2: "run_steps (prepare_pull cfg dp be cm a n) (get_pulls be) issues = (ev2, items, r2)"
    by (cases "run_steps (prepare_pull cfg dp be cm a n :: _ \<Rightarrow> _ \<Rightarrow> 'x event list \<times> _) (get_pulls be) issues") auto
  have "(count_error :: 'x event) \<notin>
          set (fst (run_steps (prepare_issue cfg dp be gists a) (get_issues be) []))"
    by (rule run_steps_events[OF prepare_issue_no_count_error])
  then have e1: "count_error \<notin> set ev1" unfolding 1 by simp
  have "(count_error :: 'x event) \<notin>
          set (fst (run_steps (prepare_pull cfg dp be cm a n) (get_pulls be) issues))"
    by (rule run_steps_events[OF prepare_pull_no_count_error])
  then have e2: "count_error \<notin> set ev2" unfolding 2 by simp
  show ?thesis
    using e1 e2 by (cases r1) (simp_all add: prepare_def 1 2 count_error_def)
qed

lemma upload_no_count_error:
  "(count_error :: 'x event) \<notin> set (fst (upload gi items g))"
proof -
  have "(count_error :: 'x event) \<notin>
          set (fst (run_steps (upload_item gi (existing_issues gi g) (existing_pulls gi g))
                     (enumerate 0 items) g))"
    by (rule run_steps_events[OF upload_item_no_count_error])
  then show ?thesis
    by (auto simp: upload_def count_error_def split: prod.splits)
qed

lemma final_checks_count_error:
  "count_error \<in> set (final_checks be gi g) \<longleftrightarrow>
     int (length (get_issues be)) + int (length (get_pulls be)) \<noteq>
     get_issues_count gi g + get_pulls_count gi g"
  by (simp add: final_checks_def count_error_def)

lemma migrate_completes:
  assumes "migrate cfg dp be gi cm a n g = ((evs :: 'x event list), g', None)"
  shows "\<exists>evs0. evs = evs0 @ final_checks be gi g' \<and> count_error \<notin> set evs0"
proof -
  obtain ev1 :: "'x event list" and g1 gists r1
    where 1: "migrate_attachments be gi a g = (ev1, (g1, gists), r1)"
    by (cases "migrate_attachments be gi a g") auto
  obtain ev2 :: "'x event list" and items r2
    where 2: "prepare cfg dp be cm a n gists = (ev2, items, r2)"
    by (cases "prepare cfg dp be cm a n gists :: 'x event list \<times> _") auto
  obtain ev3 g2 r3 where 3: "upload gi items g1 = (ev3, g2, r3)"
    by (cases "upload gi items g1") auto
  have r: "r1 = None \<and> r2 = None \<and> r3 = None"
    using assms by (cases r1; cases r2; cases r3; simp add: migrate_def 1 2 3)
  have e: "evs = ev1 @ ev2 @ ev3 @ final_checks be gi g2" "g' = g2"
    using assms r by (auto simp: migrate_def 1 2 3)
  have "count_error \<notin> set ev1" using migrate_attachments_no_count_error[of be gi a g] 1 by simp
  moreover have "count_error \<notin> set ev2"
    using prepare_no_count_error[of cfg dp be cm a n gists, where 'x = 'x] 2 by simp
  moreover have "count_error \<notin> set ev3" using upload_no_count_error[of gi items g1] 3 by simp
  ultimately show ?thesis using e by (intro exI[of _ "ev1 @ ev2 @ ev3"]) simp
qed

lemma migrate_counts_irrelevant:
  "snd (snd (migrate cfg dp be (gi\<lparr>get_issues_count := ic, get_pulls_count := pc\<rparr>) cm a n g)) =
   snd (snd (migrate cfg dp be gi cm a n g :: 'x event list \<times> _))"
proof -
  let ?gi = "gi\<lparr>get_issues_count := ic, get_pulls_count := pc\<rparr>"
  have sel: "get_remaining_rate_limit ?gi = get_remaining_rate_limit gi"
    "get_or_create_gist_by_description ?gi = get_or_create_gist_by_description gi"
    "update_issue_with_comments ?gi = update_issue_with_comments gi"
    "create_issue_with_comments ?gi = create_issue_with_comments gi"
    "create_pull_with_comments ?gi = create_pull_with_comments gi"
    "existing_issues ?gi = existing_issues gi"
    "existing_pulls ?gi = existing_pulls gi"
    by simp_all
  have ma: "migrate_attachment be ?gi = migrate_attachment be gi"
    unfolding migrate_attachment_def sel ..
  have m1: "migrate_attachments be ?gi a g = migrate_attachments be gi a g"
    unfolding migrate_attachments_def ma ..
  have ui: "upload_item ?gi = upload_item gi"
    unfolding upload_item_def sel ..
  have m3: "upload ?gi items g1 = upload gi items g1" for items g1
    unfolding upload_def ui sel ..
  obtain ev1 :: "'x event list" and g1 gists r1
    where 1: "migrate_attachments be gi a g = (ev1, (g1, gists), r1)"
    by (cases "migrate_attachments be gi a g") auto
  obtain ev2 :: "'x event list" and items r2
    where 2: "prepare cfg dp be cm a n gists = (ev2, items, r2)"
    by (cases "prepare cfg dp be cm a n gists :: 'x event list \<times> _") auto
  obtain ev3 g2 r3 where 3: "upload gi items g1 = (ev3, g2, r3)"
    by (cases "upload gi items g1") auto
  show ?thesis
    by (cases r1; cases r2; cases r3) (simp_all add: migrate_def m1 m3 1 2 3)
qed

lemmas rewriter_defs =
  map_content_def map_content_of_def
  replace_explicit_links_to_issues_def EXPLICIT_ISSUE_LINK_RE_def match_explicit_link_def
  replace_implicit_links_to_issues_def IMPLICIT_ISSUE_LINK_RE_def match_implicit_link_def
  match_bracket_def match_reference_def repo_names_def last_component_def
  replace_explicit_links_to_prs_def EXPLICIT_PR_LINK_RE_def
  replace_implicit_links_to_prs_def IMPLICIT_PR_LINK_RE_def
  replace_links_to_users_def MENTION_RE_def mention_position_def is_handle_char_def
  is_ascii_letter_def is_digit_def is_word_def is_latin1_alnum_def replace_user_def lookup_user_def format_opt_def

lemma ex_map1: "map_content example_config example_args ''see @alice'' = Inr ''see @ignore_abot''"
  by (simp add: rewriter_defs example_config_def example_args_def)

lemma ex_date1: "example_date_parser ''2012-11-26T09:59:39+00:00'' = Inr ''2012-11-26 09:59''"
  by (simp add: example_date_parser_def date_at_def is_digit_def)

lemma ex_cdate1: "convert_date ''2012-11-26T09:59:39+00:00'' = Inr ''2012-11-26T09:59:39Z''"
  by (simp add: date_at_def is_digit_def)

lemma ex_issue_ok:
  "\<exists>d. construct_gissue_from_bissue example_config example_date_parser example_issue
         example_bexport gists example_args = Inr d"
  by (simp add: construct_gissue_from_bissue_def construct_gissue_body_def example_issue_def
      example_bexport_def ex_date1 ex_cdate1 ex_map1 map_content_of_def concat_str_def
      map_buser_to_guser_def construct_gissue_comments_def construct_gissue_comments_for_changes_def
      Let_def del: convert_date.simps)

lemma prepare_issues_result:
  "run_steps (prepare_issue cfg dp be gists a) bs acc = (ev :: 'x event list, items, None) \<Longrightarrow>
   \<exists>ds. items = acc @ map (Pair ''issue'') ds \<and>
        map (\<lambda>b. construct_gissue_from_bissue cfg dp b be gists a) bs = map Inr ds"
proof (induction bs arbitrary: acc ev items)
  case Nil
  then show ?case by simp
next
  case (Cons b bs)
  show ?case
  proof (cases "construct_gissue_from_bissue cfg dp b be gists a")
    case (Inl e)
    then have "snd (prepare_issue cfg dp be gists a b acc :: 'x event list \<times> _) = Inl e"
      by (simp add: prepare_issue_def)
    then show ?thesis using Cons.prems
      by (cases "prepare_issue cfg dp be gists a b acc :: 'x event list \<times> _") simp
  next
    case (Inr d)
    obtain ev' :: "'x event list" and items' r' where rs:
      "run_steps (prepare_issue cfg dp be gists a) bs (acc @ [(''issue'', d)]) = (ev', items', r')"
      by (cases "run_steps (prepare_issue cfg dp be gists a) bs (acc @ [(''issue'', d)]) ::
                   'x event list \<times> _") auto
    have "snd (prepare_issue cfg dp be gists a b acc :: 'x event list \<times> _) =
            Inr (acc @ [(''issue'', d)])"
      using Inr by (simp add: prepare_issue_def)
    then have r: "r' = None" "items' = items"
      using Cons.prems rs
      by (cases "prepare_issue cfg dp be gists a b acc :: 'x event list \<times> _"; simp)+
    from Cons.IH[OF rs[unfolded r]] obtain ds where
      "items = (acc @ [(''issue'', d)]) @ map (Pair ''issue'') ds"
      "map (\<lambda>b. construct_gissue_from_bissue cfg dp b be gists a) bs = map Inr ds"
      by blast
    then show ?thesis using Inr by (intro exI[of _ "d # ds"]) simp
  qed
qed

lemma prepare_pulls_result:
  "run_steps (prepare_pull cfg dp be cm a n) ps acc = (ev :: 'x event list, items, None) \<Longrightarrow>
   \<exists>tds. items = acc @ tds \<and>
         map (\<lambda>p. construct_gissue_or_gpull_from_bpull cfg dp p be cm a) ps = map Inr tds"
proof (induction ps arbitrary: acc ev items)
  case Nil
  then show ?case by simp
next
  case (Cons p ps)
  show ?case
  proof (cases "construct_gissue_or_gpull_from_bpull cfg dp p be cm a")
    case (Inl e)
    then have "snd (prepare_pull cfg dp be cm a n p acc :: 'x event list \<times> _) = Inl e"
      by (simp add: prepare_pull_def)
    then show ?thesis using Cons.prems
      by (cases "prepare_pull cfg dp be cm a n p acc :: 'x event list \<times> _") simp
  next
    case (Inr td)
    obtain ev' :: "'x event list" and items' r' where rs:
      "run_steps (prepare_pull cfg dp be cm a n) ps (acc @ [td]) = (ev', items', r')"
      by (cases "run_steps (prepare_pull cfg dp be cm a n) ps (acc @ [td]) ::
                   'x event list \<times> _") auto
    have "snd (prepare_pull cfg dp be cm a n p acc :: 'x event list \<times> _) = Inr (acc @ [td])"
      using Inr by (simp add: prepare_pull_def)
    then have r: "r' = None" "items' = items"
      using Cons.prems rs
      by (cases "prepare_pull cfg dp be cm a n p acc :: 'x event list \<times> _"; simp)+
    from Cons.IH[OF rs[unfolded r]] obtain tds where
      "items = (acc @ [td]) @ tds"
      "map (\<lambda>p. construct_gissue_or_gpull_from_bpull cfg dp p be cm a) ps = map Inr tds"
      by blast
    then show ?thesis using Inr by (intro exI[of _ "td # tds"]) simp
  qed
qed

lemma map_eq_nth:
  "map f xs = map g ys \<Longrightarrow> i < length xs \<Longrightarrow> f (xs ! i) = g (ys ! i) \<and> length ys = length xs"
  by (metis length_map nth_map)

lemma sg_simps:
  "get_remaining_rate_limit sequential_gimport d = 5000"
  "existing_issues sequential_gimport d n = map_option (\<lambda>v. n) (map_of (dest_issues d) n)"
  "existing_pulls sequential_gimport d n = map_option (\<lambda>v. n) (map_of (dest_pulls d) n)"
  "update_issue_with_comments sequential_gimport n data d =
     Inr (d\<lparr>dest_issues := replace_item n data (dest_issues d),
            dest_pulls := replace_item n data (dest_pulls d)\<rparr>)"
  "create_issue_with_comments sequential_gimport data d =
     Inr (d\<lparr>dest_issues := dest_issues d @ [(next_number d, data)]\<rparr>)"
  "create_pull_with_comments sequential_gimport data d =
     Inr (d\<lparr>dest_pulls := dest_pulls d @ [(next_number d, data)]\<rparr>)"
  "get_issues_count sequential_gimport d = int (length (dest_issues d))"
  "get_pulls_count sequential_gimport d = int (length (dest_pulls d))"
  by (simp_all add: sequential_gimport_def)

lemma sg_gist:
  "\<exists>gist. get_or_create_gist_by_description sequential_gimport gist_data d = Inr (gist, d) \<and>
          (\<forall>d'. get_or_create_gist_by_description sequential_gimport gist_data d' = Inr (gist, d'))"
  by (simp add: sequential_gimport_def)

lemma sg_migrate_attachment:
  "\<exists>evs m'. migrate_attachment be sequential_gimport b (d, m) = (evs, Inr (d, m')) \<and>
            list_all (\<lambda>e. \<not> is_create e) evs \<and>
            (\<forall>d'. migrate_attachment be sequential_gimport b (d', m) = (evs, Inr (d', m')))"
proof -
  obtain gist where g: "\<And>d'. get_or_create_gist_by_description sequential_gimport
      (construct_gist_from_bissue_attachments b be) d' = Inr (gist, d')"
    using sg_gist[of "construct_gist_from_bissue_attachments b be" d] by blast
  show ?thesis
    by (cases "get_issue_attachments be (issue_id b) = []")
       (simp_all add: migrate_attachment_def Let_def g sg_simps)
qed

lemma sg_attachments_loop:
  "\<exists>evs m'. run_steps (migrate_attachment be sequential_gimport) bs (d, m) = (evs, (d, m'), None) \<and>
            list_all (\<lambda>e. \<not> is_create e) evs \<and>
            (\<forall>d'. run_steps (migrate_attachment be sequential_gimport) bs (d', m) =
                    (evs, (d', m'), None))"
proof (induction bs arbitrary: m)
  case Nil
  then show ?case by simp
next
  case (Cons b bs)
  obtain evs m1 where 1: "\<And>d'. migrate_attachment be sequential_gimport b (d', m) = (evs, Inr (d', m1))"
    and c1: "list_all (\<lambda>e. \<not> is_create e) evs"
    using sg_migrate_attachment[of be b d m] by blast
  obtain evs' m2 where 2: "\<And>d'. run_steps (migrate_attachment be sequential_gimport) bs (d', m1) =
      (evs', (d', m2), None)" and c2: "list_all (\<lambda>e. \<not> is_create e) evs'"
    using Cons.IH[of m1] by blast
  show ?case
    by (intro exI[of _ "evs @ evs'"] exI[of _ m2]) (simp add: 1 2 c1 c2)
qed

lemma sg_migrate_attachments:
  "\<exists>evs gists. migrate_attachments be sequential_gimport a d = (evs, (d, gists), None) \<and>
            list_all (\<lambda>e. \<not> is_create e) evs \<and>
            (\<forall>d'. migrate_attachments be sequential_gimport a d' = (evs, (d', gists), None))"
proof (cases "skip_attachments a")
  case True
  then show ?thesis by (simp add: migrate_attachments_def)
next
  case False
  obtain evs m' where 1: "\<And>d'. run_steps (migrate_attachment be sequential_gimport) (get_issues be)
      (d', (\<lambda>i. None)) = (evs, (d', m'), None)" and c: "list_all (\<lambda>e. \<not> is_create e) evs"
    using sg_attachments_loop[of be "get_issues be" d "\<lambda>i. None"] by blast
  show ?thesis
    using False c
    by (intro exI[of _ "Print ''Migrate bitbucket attachments to github...'' [] # evs"] exI[of _ m'])
       (simp add: migrate_attachments_def 1)
qed

lemma bind_err_InrE:
  assumes "bind_err m f = Inr y"
  obtains x where "m = Inr x" and "f x = Inr y"
  using assms by (cases m) auto

lemma pull_item_type:
  assumes "construct_gissue_or_gpull_from_bpull cfg dp p be cm a = Inr (t, d)"
  shows "t = ''issue'' \<or> t = ''pull''"
proof -
  from assms obtain body c1 c2 where
    r: "(if map_bstate_to_gstate cfg (pull_state p) = ''closed''
         then bind_err (convert_date (pull_created_on p)) (\<lambda>created_at.
              bind_err (convert_date (pull_updated_on p)) (\<lambda>updated_at.
              Inr (''issue'',
                   Issue_data
                     \<lparr>issue_title' = construct_gissue_title_for_pull p, issue_body = body,
                      issue_created_at = created_at, issue_updated_at = updated_at,
                      issue_assignee' = map_buser_to_guser cfg (pull_author p),
                      issue_closed = (map_bstate_to_gstate cfg (pull_state p) = ''closed''),
                      issue_labels = set ([''pull request''] @ map_bstate_to_glabels cfg (pull_state p))\<rparr>
                     (sort_key comment_created_at (c1 @ c2)))))
         else Inr (''pull'',
                   Pull_data
                     \<lparr>pull_title' = construct_gissue_title_for_pull p, pull_body = body,
                      pull_assignees = [map_buser_to_guser cfg (pull_author p)],
                      pull_closed = (map_bstate_to_gstate cfg (pull_state p) = ''closed''),
                      pull_labels = set ([''pull request''] @ map_bstate_to_glabels cfg (pull_state p)),
                      pull_base = ''TODO'', pull_head = ''TODO''\<rparr>
                     (sort_key comment_created_at (c1 @ c2)))) = Inr (t, d)"
    unfolding construct_gissue_or_gpull_from_bpull_def Let_def
    by (elim bind_err_InrE) blast
  show ?thesis
  proof (cases "map_bstate_to_gstate cfg (pull_state p) = ''closed''")
    case True
    with r show ?thesis by (auto elim!: bind_err_InrE)
  next
    case False
    with r show ?thesis by simp
  qed
qed

lemma prepare_types:
  assumes "prepare cfg dp be cm a n gists = (ev :: 'x event list, items, None)"
  shows "\<forall>(t, d)\<in>set items. t = ''issue'' \<or> t = ''pull''"
proof -
  obtain ev1 :: "'x event list" and issues r1
    where 1: "run_steps (prepare_issue cfg dp be gists a) (get_issues be) [] = (ev1, issues, r1)"
    by (cases "run_steps (prepare_issue cfg dp be gists a) (get_issues be) [] :: 'x event list \<times> _") auto
  obtain ev2 :: "'x event list" and items' r2
    where 2: "run_steps (prepare_pull cfg dp be cm a n) (get_pulls be) issues = (ev2, items', r2)"
    by (cases "run_steps (prepare_pull cfg dp be cm a n) (get_pulls be) issues :: 'x event list \<times> _") auto
  have r: "r1 = None \<and> r2 = None \<and> items' = items"
    using assms by (cases r1) (simp_all add: prepare_def 1 2)
  obtain ds where ds: "issues = map (Pair ''issue'') ds"
    using prepare_issues_result[OF 1[unfolded r[THEN conjunct1]]] by auto
  obtain tds where tds: "items = issues @ tds"
    "map (\<lambda>p. construct_gissue_or_gpull_from_bpull cfg dp p be cm a) (get_pulls be) = map Inr tds"
    using prepare_pulls_result[of cfg dp be cm a n "get_pulls be" issues ev2 items] 2 r by auto
  have "t = ''issue'' \<or> t = ''pull''" if "(t, d) \<in> set tds" for t d
  proof -
    from that obtain j where j: "j < length tds" "tds ! j = (t, d)"
      by (auto simp: in_set_conv_nth)
    have l: "length tds = length (get_pulls be)" using tds(2) by (metis length_map)
    have "construct_gissue_or_gpull_from_bpull cfg dp (get_pulls be ! j) be cm a = Inr (t, d)"
      using map_eq_nth[OF tds(2), of j] j l by simp
    then show ?thesis by (rule pull_item_type)
  qed
  then show ?thesis unfolding tds(1) ds by auto
qed

lemma sg_create_item:
  assumes "next_number d = int k + 1"
  shows "upload_item sequential_gimport (\<lambda>n. None) (\<lambda>n. None) (k, ''issue'', data) d =
           ([Print ''Upload github issue or pull request #{}... [rate limiting: {}]''
               [str_int (int k + 1), str_int 5000],
             Print ''Create github issue #{}...'' [str_int (int k + 1)],
             Call_create_issue_with_comments data],
            Inr (d\<lparr>dest_issues := dest_issues d @ [(int k + 1, data)]\<rparr>))"
    and "upload_item sequential_gimport (\<lambda>n. None) (\<lambda>n. None) (k, ''pull'', data) d =
           ([Print ''Upload github issue or pull request #{}... [rate limiting: {}]''
               [str_int (int k + 1), str_int 5000],
             Print ''Create github pull request #{}...'' [str_int (int k + 1)],
             Call_create_pull_with_comments data],
            Inr (d\<lparr>dest_pulls := dest_pulls d @ [(int k + 1, data)]\<rparr>))"
  using assms by (simp_all add: upload_item_def upload_number_def sg_simps Let_def)

lemma sg_first_upload:
  assumes "\<forall>(t, data)\<in>set items. t = ''issue'' \<or> t = ''pull''"
    and "next_number d = int k + 1"
  shows "\<exists>evs d'. run_steps (upload_item sequential_gimport (\<lambda>n. None) (\<lambda>n. None))
                     (enumerate k items) d = (evs, d', None) \<and>
           dest_issues d' = dest_issues d @
             map (\<lambda>(i, t, data). (int i + 1, data))
               (filter (\<lambda>(i, t, data). t = ''issue'') (enumerate k items)) \<and>
           dest_pulls d' = dest_pulls d @
             map (\<lambda>(i, t, data). (int i + 1, data))
               (filter (\<lambda>(i, t, data). t = ''pull'') (enumerate k items))"
  using assms
proof (induction items arbitrary: k d)
  case Nil
  then show ?case by simp
next
  case (Cons x items)
  obtain t data where x: "x = (t, data)" by (cases x)
  have t: "t = ''issue'' \<or> t = ''pull''" using Cons.prems(1) x by auto
  have rest: "\<forall>(t, data)\<in>set items. t = ''issue'' \<or> t = ''pull''" using Cons.prems(1) by auto
  from t show ?case
  proof
    assume ti: "t = ''issue''"
    let ?d1 = "d\<lparr>dest_issues := dest_issues d @ [(int k + 1, data)]\<rparr>"
    have n1: "next_number ?d1 = int (Suc k) + 1"
      using Cons.prems(2) by (simp add: next_number_def)
    from Cons.IH[OF rest n1] obtain evs d' where
      r: "run_steps (upload_item sequential_gimport (\<lambda>n. None) (\<lambda>n. None))
            (enumerate (Suc k) items) ?d1 = (evs, d', None)"
      and i: "dest_issues d' = dest_issues ?d1 @
             map (\<lambda>(i, t, data). (int i + 1, data))
               (filter (\<lambda>(i, t, data). t = ''issue'') (enumerate (Suc k) items))"
      and p: "dest_pulls d' = dest_pulls ?d1 @
             map (\<lambda>(i, t, data). (int i + 1, data))
               (filter (\<lambda>(i, t, data). t = ''pull'') (enumerate (Suc k) items))"
      by blast
    show ?thesis
      using r i p by (simp add: x ti sg_create_item(1)[OF Cons.prems(2)])
  next
    assume tp: "t = ''pull''"
    let ?d1 = "d\<lparr>dest_pulls := dest_pulls d @ [(int k + 1, data)]\<rparr>"
    have n1: "next_number ?d1 = int (Suc k) + 1"
      using Cons.prems(2) by (simp add: next_number_def)
    from Cons.IH[OF rest n1] obtain evs d' where
      r: "run_steps (upload_item sequential_gimport (\<lambda>n. None) (\<lambda>n. None))
            (enumerate (Suc k) items) ?d1 = (evs, d', None)"
      and i: "dest_issues d' = dest_issues ?d1 @
             map (\<lambda>(i, t, data). (int i + 1, data))
               (filter (\<lambda>(i, t, data). t = ''issue'') (enumerate (Suc k) items))"
      and p: "dest_pulls d' = dest_pulls ?d1 @
             map (\<lambda>(i, t, data). (int i + 1, data))
               (filter (\<lambda>(i, t, data). t = ''pull'') (enumerate (Suc k) items))"
      by blast
    show ?thesis
      using r i p by (simp add: x tp sg_create_item(2)[OF Cons.prems(2)])
  qed
qed

lemma length_replace_item: "length (replace_item n data items) = length items"
  by (simp add: replace_item_def)

lemma sg_update_item:
  assumes "(t = ''issue'' \<and> eis (upload_number i) \<noteq> None) \<or>
           (t = ''pull'' \<and> eps (upload_number i) \<noteq> None)"
  shows "\<exists>evs d'. upload_item sequential_gimport eis eps (i, t, data) d = (evs, Inr d') \<and>
           list_all (\<lambda>e. \<not> is_create e) evs \<and>
           length (dest_issues d') = length (dest_issues d) \<and>
           length (dest_pulls d') = length (dest_pulls d)"
  using assms
  by (auto simp: upload_item_def Let_def sg_simps length_replace_item)

lemma sg_second_upload:
  assumes "\<forall>(i, t, data)\<in>set entries.
             (t = ''issue'' \<and> eis (upload_number i) \<noteq> None) \<or>
             (t = ''pull'' \<and> eps (upload_number i) \<noteq> None)"
  shows "\<exists>evs d'. run_steps (upload_item sequential_gimport eis eps) entries d = (evs, d', None) \<and>
           list_all (\<lambda>e. \<not> is_create e) evs \<and>
           length (dest_issues d') = length (dest_issues d) \<and>
           length (dest_pulls d') = length (dest_pulls d)"
  using assms
proof (induction entries arbitrary: d)
  case Nil
  then show ?case by simp
next
  case (Cons x entries)
  obtain i t data where x: "x = (i, t, data)" by (cases x)
  have "(t = ''issue'' \<and> eis (upload_number i) \<noteq> None) \<or>
        (t = ''pull'' \<and> eps (upload_number i) \<noteq> None)"
    using Cons.prems x by auto
  from sg_update_item[where t=t and eis=eis and eps=eps and i=i and data=data and d=d, OF this]
  obtain evs d1 where
    1: "upload_item sequential_gimport eis eps (i, t, data) d = (evs, Inr d1)"
    and c1: "list_all (\<lambda>e. \<not> is_create e) evs"
    and l1: "length (dest_issues d1) = length (dest_issues d)"
            "length (dest_pulls d1) = length (dest_pulls d)"
    by blast
  have "\<forall>(i, t, data)\<in>set entries.
             (t = ''issue'' \<and> eis (upload_number i) \<noteq> None) \<or>
             (t = ''pull'' \<and> eps (upload_number i) \<noteq> None)"
    using Cons.prems by auto
  from Cons.IH[OF this, of d1] obtain evs' d' where
    2: "run_steps (upload_item sequential_gimport eis eps) entries d1 = (evs', d', None)"
    and c2: "list_all (\<lambda>e. \<not> is_create e) evs'"
    and l2: "length (dest_issues d') = length (dest_issues d1)"
            "length (dest_pulls d') = length (dest_pulls d1)"
    by blast
  show ?case
    by (intro exI[of _ "evs @ evs'"] exI[of _ d']) (simp add: x 1 2 c1 c2 l1 l2)
qed

lemma run_steps_list_all:
  assumes "\<And>x s. list_all Q (fst (f x s))"
  shows "list_all Q (fst (run_steps f xs s))"
proof (induction xs arbitrary: s)
  case Nil
  then show ?case by simp
next
  case (Cons x xs)
  obtain evs r where f: "f x s = (evs, r)" by (cases "f x s")
  have e: "list_all Q evs" using assms[of x s] f by simp
  show ?case
  proof (cases r)
    case (Inl err)
    then show ?thesis using f e by simp
  next
    case (Inr s')
    obtain evs' s'' r' where rs: "run_steps f xs s' = (evs', s'', r')"
      by (cases "run_steps f xs s'") auto
    have "list_all Q evs'" using Cons.IH[of s'] rs by simp
    then show ?thesis using f e Inr rs by simp
  qed
qed

lemma prepare_no_create:
  "list_all (\<lambda>e. \<not> is_create e) (fst (prepare cfg dp be cm a n gists :: 'x event list \<times> _))"
proof -
  obtain ev1 :: "'x event list" and issues r1
    where 1: "run_steps (prepare_issue cfg dp be gists a) (get_issues be) [] = (ev1, issues, r1)"
    by (cases "run_steps (prepare_issue cfg dp be gists a) (get_issues be) [] :: 'x event list \<times> _") auto
  obtain ev2 :: "'x event list" and items r2
    where 2: "run_steps (prepare_pull cfg dp be cm a n) (get_pulls be) issues = (ev2, items, r2)"
    by (cases "run_steps (prepare_pull cfg dp be cm a n) (get_pulls be) issues :: 'x event list \<times> _") auto
  have "list_all (\<lambda>e. \<not> is_create e)
          (fst (run_steps (prepare_issue cfg dp be gists a) (get_issues be) [] :: 'x event list \<times> _))"
    by (rule run_steps_list_all) (simp add: prepare_issue_def)
  then have e1: "list_all (\<lambda>e. \<not> is_create e) ev1" unfolding 1 by simp
  have "list_all (\<lambda>e. \<not> is_create e)
          (fst (run_steps (prepare_pull cfg dp be cm a n) (get_pulls be) issues :: 'x event list \<times> _))"
    by (rule run_steps_list_all) (simp add: prepare_pull_def)
  then have e2: "list_all (\<lambda>e. \<not> is_create e) ev2" unfolding 2 by simp
  show ?thesis
    using e1 e2 by (cases r1) (simp_all add: prepare_def 1 2)
qed

lemma final_checks_no_create: "list_all (\<lambda>e. \<not> is_create e) (final_checks be gi g)"
  by (simp add: final_checks_def)

lemma sg_empty_snapshot:
  "existing_issues sequential_gimport empty_destination = (\<lambda>n. None)"
  "existing_pulls sequential_gimport empty_destination = (\<lambda>n. None)"
  by (intro ext, simp add: sg_simps empty_destination_def)+

lemma map_of_present: "(k, v) \<in> set xs \<Longrightarrow> map_of xs k \<noteq> None"
  by (metis map_of_eq_None_iff fst_conv image_eqI)

lemma second_run_updates_only:
  assumes run1: "bitbucket_to_github cfg dp be sequential_gimport cm a empty_destination =
                   (ev1, d1, None)"
  shows "\<exists>ev2 d2. bitbucket_to_github cfg dp be sequential_gimport cm a d1 = (ev2, d2, None) \<and>
           filter is_create ev2 = [] \<and>
           get_issues_count sequential_gimport d2 + get_pulls_count sequential_gimport d2 =
           get_issues_count sequential_gimport d1 + get_pulls_count sequential_gimport d1"
proof -
  define n where "n = int (length (get_issues be))"
  have n: "map_of (KNOWN_ISSUES_COUNT_MAPPING cfg) (get_repo_full_name be) = Some n"
    and m: "migrate cfg dp be sequential_gimport cm a n empty_destination = (ev1, d1, None)"
    using run1 unfolding n_def
    by (cases "map_of (KNOWN_ISSUES_COUNT_MAPPING cfg) (get_repo_full_name be)";
        auto simp: bitbucket_to_github_def split: if_splits)+
  obtain evA gists where A: "\<And>d'. migrate_attachments be sequential_gimport a d' = (evA, (d', gists), None)"
    and cA: "list_all (\<lambda>e. \<not> is_create e) evA"
    using sg_migrate_attachments[of be a empty_destination] by blast
  obtain evP :: "int event list" and items rP
    where P: "prepare cfg dp be cm a n gists = (evP, items, rP)"
    by (cases "prepare cfg dp be cm a n gists :: int event list \<times> _") auto
  obtain evU dU rU where U: "upload sequential_gimport items empty_destination = (evU, dU, rU)"
    by (cases "upload sequential_gimport items empty_destination") auto
  have rP: "rP = None" using m by (cases rP) (simp_all add: migrate_def A P)
  have rU: "rU = None \<and> dU = d1" using m rP by (cases rU) (simp_all add: migrate_def A P U)
  have types: "\<forall>(t, d)\<in>set items. t = ''issue'' \<or> t = ''pull''"
    using prepare_types[OF P[unfolded rP]] .
  have "next_number empty_destination = int 0 + 1"
    by (simp add: next_number_def empty_destination_def)
  from sg_first_upload[OF types this] obtain evs d' where
    f: "run_steps (upload_item sequential_gimport (\<lambda>n. None) (\<lambda>n. None))
          (enumerate 0 items) empty_destination = (evs, d', None)"
    and fi: "dest_issues d' = dest_issues empty_destination @
             map (\<lambda>(i, t, data). (int i + 1, data))
               (filter (\<lambda>(i, t, data). t = ''issue'') (enumerate 0 items))"
    and fp: "dest_pulls d' = dest_pulls empty_destination @
             map (\<lambda>(i, t, data). (int i + 1, data))
               (filter (\<lambda>(i, t, data). t = ''pull'') (enumerate 0 items))"
    by blast
  have d1: "d' = d1" using U rU f by (simp add: upload_def sg_empty_snapshot)
  have present: "(t = ''issue'' \<and> existing_issues sequential_gimport d1 (upload_number i) \<noteq> None) \<or>
                 (t = ''pull'' \<and> existing_pulls sequential_gimport d1 (upload_number i) \<noteq> None)"
    if e: "(i, t, data) \<in> set (enumerate 0 items)" for i t data
  proof -
    have "(t, data) \<in> set items" using e by (auto simp: in_set_enumerate_eq dest: nth_mem)
    then have "t = ''issue'' \<or> t = ''pull''" using types by auto
    then show ?thesis
    proof
      assume t: "t = ''issue''"
      have "(int i + 1, data) \<in> set (dest_issues d1)"
        unfolding d1[symmetric] fi using e t by (auto simp: image_iff intro!: bexI[of _ "(i, t, data)"])
      then show ?thesis using t by (simp add: sg_simps upload_number_def map_of_present)
    next
      assume t: "t = ''pull''"
      have "(int i + 1, data) \<in> set (dest_pulls d1)"
        unfolding d1[symmetric] fp using e t by (auto simp: image_iff intro!: bexI[of _ "(i, t, data)"])
      then show ?thesis using t by (simp add: sg_simps upload_number_def map_of_present)
    qed
  qed
  then have "\<forall>(i, t, data)\<in>set (enumerate 0 items).
             (t = ''issue'' \<and> existing_issues sequential_gimport d1 (upload_number i) \<noteq> None) \<or>
             (t = ''pull'' \<and> existing_pulls sequential_gimport d1 (upload_number i) \<noteq> None)"
    by auto
  from sg_second_upload[OF this, of d1] obtain evs2 d2 where
    s: "run_steps (upload_item sequential_gimport (existing_issues sequential_gimport d1)
          (existing_pulls sequential_gimport d1)) (enumerate 0 items) d1 = (evs2, d2, None)"
    and c2: "list_all (\<lambda>e. \<not> is_create e) evs2"
    and l2: "length (dest_issues d2) = length (dest_issues d1)"
            "length (dest_pulls d2) = length (dest_pulls d1)"
    by blast
  have cP: "list_all (\<lambda>e. \<not> is_create e) evP"
    using prepare_no_create[of cfg dp be cm a n gists, where 'x = int] P by simp
  have run2: "bitbucket_to_github cfg dp be sequential_gimport cm a d1 =
      (evA @ evP @ (Print ''Upload github issues...'' [] # evs2) @
         final_checks be sequential_gimport d2, d2, None)"
    by (simp add: bitbucket_to_github_def n n_def[symmetric] migrate_def A P rP upload_def s)
  have "filter is_create (evA @ evP @ (Print ''Upload github issues...'' [] # evs2) @
         final_checks be sequential_gimport d2) = []"
    using cA cP c2 final_checks_no_create[of be sequential_gimport d2]
    by (simp add: filter_empty_conv list_all_iff)
  then show ?thesis using run2 l2 by (simp add: sg_simps)
qed

lemma upload_item_calls:
  "(type = ''issue'' \<longrightarrow>
      filter is_call (fst (upload_item gi eis eps (index, type, data) g)) =
        (case eis (upload_number index) of
           Some existing \<Rightarrow> [Call_update_issue_with_comments existing data]
         | None \<Rightarrow> [Call_create_issue_with_comments data])) \<and>
   (type = ''pull'' \<longrightarrow>
      filter is_call (fst (upload_item gi eis eps (index, type, data) g)) =
        (case eps (upload_number index) of
           Some existing \<Rightarrow> [Call_update_issue_with_comments existing data]
         | None \<Rightarrow> [Call_create_pull_with_comments data]))"
  by (simp add: upload_item_def Let_def split: option.splits)

lemma ex_map2: "map_content example_config example_args ''fixes it'' = Inr ''fixes it''"
  by (simp add: rewriter_defs example_config_def example_args_def)

lemma ex_date2: "example_date_parser ''2012-11-27T10:00:00+00:00'' = Inr ''2012-11-27 10:00''"
  by (simp add: example_date_parser_def date_at_def is_digit_def)

lemma ex_cdate2: "convert_date ''2012-11-27T10:00:00+00:00'' = Inr ''2012-11-27T10:00:00Z''"
  by (simp add: date_at_def is_digit_def)

lemma ex_map3: "map_content pulls_only_config example_args ''fixes it'' = Inr ''fixes it''"
  by (simp add: rewriter_defs pulls_only_config_def example_config_def example_args_def)

lemma example_pull_ok:
  assumes "map_content cfg a ''fixes it'' = Inr ''fixes it''"
    and "map_bstate_to_gstate cfg ''OPEN'' = ''open''"
    and "get_pull_comments be 1 = []" and "get_pull_activity be 1 = []"
  shows "\<exists>d. construct_gissue_or_gpull_from_bpull cfg example_date_parser example_pull
           be example_cmap a = Inr (''pull'', d)"
proof -
  have "\<exists>body. construct_gpull_request_body cfg example_date_parser example_pull be
            example_cmap a = Inr body"
    by (simp add: construct_gpull_request_body_def source_section_def destination_section_def
        example_pull_def ex_date2 assms(1) map_content_of_def concat_str_def Let_def)
  then obtain body where b: "construct_gpull_request_body cfg example_date_parser
      example_pull be example_cmap a = Inr body"
    by blast
  have s: "pull_state example_pull = ''OPEN''" "pull_id example_pull = 1"
    by (simp_all add: example_pull_def)
  show ?thesis
    by (simp add: construct_gissue_or_gpull_from_bpull_def b s assms Let_def
        construct_gissue_comments_def construct_gissue_comments_for_activity_def)
qed

lemma ex_pull_ok:
  "\<exists>d. construct_gissue_or_gpull_from_bpull example_config example_date_parser example_pull
         example_bexport example_cmap example_args = Inr (''pull'', d)"
  by (rule example_pull_ok, rule ex_map2)
     (simp_all add: map_bstate_to_gstate_def example_config_def example_bexport_def)

lemma ex_pull_ok':
  "\<exists>d. construct_gissue_or_gpull_from_bpull pulls_only_config example_date_parser example_pull
         pulls_only_bexport example_cmap example_args = Inr (''pull'', d)"
  by (rule example_pull_ok, rule ex_map3)
     (simp_all add: map_bstate_to_gstate_def pulls_only_config_def example_config_def
        pulls_only_bexport_def example_bexport_def)

lemma ex_prepare_ok:
  "\<exists>ev items. prepare example_config example_date_parser example_bexport example_cmap example_args
       1 gists = (ev :: 'x event list, items, None)"
proof -
  obtain d1 where 1: "construct_gissue_from_bissue example_config example_date_parser example_issue
         example_bexport gists example_args = Inr d1"
    using ex_issue_ok by blast
  obtain d2 where 2: "construct_gissue_or_gpull_from_bpull example_config example_date_parser
         example_pull example_bexport example_cmap example_args = Inr (''pull'', d2)"
    using ex_pull_ok by blast
  have l: "get_issues example_bexport = [example_issue]" "get_pulls example_bexport = [example_pull]"
    by (simp_all add: example_bexport_def)
  show ?thesis
    by (simp add: prepare_def l prepare_issue_def prepare_pull_def 1 2)
qed

lemma ex_prepare_pulls_only:
  "\<exists>ev d. prepare pulls_only_config example_date_parser pulls_only_bexport example_cmap example_args
       0 gists = (ev :: 'x event list, [(''pull'', d)], None)"
proof -
  obtain d2 where 2: "construct_gissue_or_gpull_from_bpull pulls_only_config example_date_parser
         example_pull pulls_only_bexport example_cmap example_args = Inr (''pull'', d2)"
    using ex_pull_ok' by blast
  have l: "get_issues pulls_only_bexport = []" "get_pulls pulls_only_bexport = [example_pull]"
    by (simp_all add: pulls_only_bexport_def example_bexport_def)
  show ?thesis
    by (simp add: prepare_def l prepare_pull_def 2)
qed

lemma sg_first_run_completes:
  assumes gate: "map_of (KNOWN_ISSUES_COUNT_MAPPING cfg) (get_repo_full_name be) =
                   Some (int (length (get_issues be)))"
    and prep: "\<And>gists. \<exists>ev items. prepare cfg dp be cm a (int (length (get_issues be))) gists =
                 (ev :: int event list, items, None)"
  shows "\<exists>ev1 d1. bitbucket_to_github cfg dp be sequential_gimport cm a empty_destination =
           (ev1, d1, None)"
proof -
  obtain evA gists where A: "migrate_attachments be sequential_gimport a empty_destination =
      (evA, (empty_destination, gists), None)"
    using sg_migrate_attachments[of be a empty_destination] by blast
  obtain evP items where P: "prepare cfg dp be cm a (int (length (get_issues be))) gists =
      (evP :: int event list, items, None)"
    using prep by blast
  have types: "\<forall>(t, d)\<in>set items. t = ''issue'' \<or> t = ''pull''"
    using prepare_types[OF P] .
  have "next_number empty_destination = int 0 + 1"
    by (simp add: next_number_def empty_destination_def)
  from sg_first_upload[OF types this] obtain evs d' where
    f: "run_steps (upload_item sequential_gimport (\<lambda>n. None) (\<lambda>n. None))
          (enumerate 0 items) empty_destination = (evs, d', None)"
    by blast
  show ?thesis
    by (simp add: bitbucket_to_github_def gate migrate_def A P upload_def sg_empty_snapshot f)
qed

lemma ex_run_completes:
  "\<exists>ev1 d1. bitbucket_to_github example_config example_date_parser example_bexport
      sequential_gimport example_cmap example_args empty_destination = (ev1, d1, None)"
proof (rule sg_first_run_completes)
  show "map_of (KNOWN_ISSUES_COUNT_MAPPING example_config) (get_repo_full_name example_bexport) =
          Some (int (length (get_issues example_bexport)))"
    by (simp add: example_config_def example_bexport_def)
  show "\<exists>ev items. prepare example_config example_date_parser example_bexport example_cmap
          example_args (int (length (get_issues example_bexport))) gists =
          (ev :: int event list, items, None)" for gists
    using ex_prepare_ok[of gists, where 'x = int] by (simp add: example_bexport_def)
qed

lemma prepare_prints:
  assumes "\<And>fmt xs. Q (Print fmt xs)"
  shows "list_all Q (fst (prepare cfg dp be cm a n gists :: 'x event list \<times> _))"
proof -
  obtain ev1 :: "'x event list" and issues r1
    where 1: "run_steps (prepare_issue cfg dp be gists a) (get_issues be) [] = (ev1, issues, r1)"
    by (cases "run_steps (prepare_issue cfg dp be gists a) (get_issues be) [] :: 'x event list \<times> _") auto
  obtain ev2 :: "'x event list" and items r2
    where 2: "run_steps (prepare_pull cfg dp be cm a n) (get_pulls be) issues = (ev2, items, r2)"
    by (cases "run_steps (prepare_pull cfg dp be cm a n) (get_pulls be) issues :: 'x event list \<times> _") auto
  have "list_all Q
          (fst (run_steps (prepare_issue cfg dp be gists a) (get_issues be) [] :: 'x event list \<times> _))"
    by (rule run_steps_list_all) (simp add: prepare_issue_def assms)
  then have e1: "list_all Q ev1" unfolding 1 by simp
  have "list_all Q
          (fst (run_steps (prepare_pull cfg dp be cm a n) (get_pulls be) issues :: 'x event list \<times> _))"
    by (rule run_steps_list_all) (simp add: prepare_pull_def assms)
  then have e2: "list_all Q ev2" unfolding 2 by simp
  show ?thesis
    using e1 e2 by (cases r1) (simp_all add: prepare_def 1 2 assms)
qed

lemma pull_request_unchanged:
  "replace_implicit_links_to_prs cfg a ''pull request #3'' = Inr ''pull request #3''"
  unfolding replace_implicit_links_to_prs_def IMPLICIT_PR_LINK_RE_def
  by (rule re_sub_raising_no_match, rule match_implicit_link_None) auto

lemma implicit_pr_reference_raises:
  "replace_implicit_links_to_prs example_config example_args ''pull request #3/i'' = Inl TypeError"
  by (simp add: implicit_pr_reference_slash_i example_config_def example_args_def)

lemma see_issue_slash_i:
  "replace_implicit_links_to_issues example_config example_args ''see issue #4/i'' =
     ''see https://github.com/viperproject/silver/issues/4''"
  by (simp add: replace_implicit_links_to_issues_def IMPLICIT_ISSUE_LINK_RE_def
      match_implicit_link_def match_bracket_def match_reference_def repo_names_def
      last_component_def matched_def is_digit_def implicit_replace_issue_link_def
      find_repo_by_name_def example_config_def example_args_def)

section \<open>The claims\<close>

text \<open>
  Claim C1. When the configured issue count of the source repository is absent, or is
  not the number of fetched issues, \<open>bitbucket_to_github\<close> ends with \<^verbatim>\<open>AssertionError\<close>,
  with no event at all (nothing printed, no call of the destination client) and the
  destination unchanged: before attachments, preparation and upload. When the count is
  the number of fetched issues the run is the run behind the assertions, and its first
  event is the first line of the attachment part.
\<close>

theorem gate_aborts_before_any_write:
  "(map_of (KNOWN_ISSUES_COUNT_MAPPING cfg) (get_repo_full_name be) \<noteq> Some (int (length (get_issues be))) \<longrightarrow>
      bitbucket_to_github cfg dp be gi cm a g = ([], g, Some AssertionError)) \<and>
   (map_of (KNOWN_ISSUES_COUNT_MAPPING cfg) (get_repo_full_name be) = Some (int (length (get_issues be))) \<longrightarrow>
      bitbucket_to_github cfg dp be gi cm a g = migrate cfg dp be gi cm a (int (length (get_issues be))) g \<and>
      (\<exists>evs. fst (bitbucket_to_github cfg dp be gi cm a g) =
         (if skip_attachments a
          then Print ''Warning: migration of bitbucket attachments to github has been skipped.'' []
          else Print ''Migrate bitbucket attachments to github...'' []) # evs))"
proof (intro conjI impI)
  assume "map_of (KNOWN_ISSUES_COUNT_MAPPING cfg) (get_repo_full_name be) \<noteq> Some (int (length (get_issues be)))"
  then show "bitbucket_to_github cfg dp be gi cm a g = ([], g, Some AssertionError)"
    by (auto simp: bitbucket_to_github_def split: option.splits)
next
  assume c: "map_of (KNOWN_ISSUES_COUNT_MAPPING cfg) (get_repo_full_name be) = Some (int (length (get_issues be)))"
  then show eq: "bitbucket_to_github cfg dp be gi cm a g = migrate cfg dp be gi cm a (int (length (get_issues be))) g"
    by (simp add: bitbucket_to_github_def)
  show "\<exists>evs. fst (bitbucket_to_github cfg dp be gi cm a g) =
         (if skip_attachments a
          then Print ''Warning: migration of bitbucket attachments to github has been skipped.'' []
          else Print ''Migrate bitbucket attachments to github...'' []) # evs"
    unfolding eq by (rule migrate_first)
qed

text \<open>
  The theorem at the example repository: without a configured count the run aborts,
  with the count 1 and one issue it starts to migrate the attachments.
\<close>

theorem gate_aborts_before_any_write_witness:
  "bitbucket_to_github unconfigured example_date_parser example_bexport sequential_gimport
     example_cmap example_args empty_destination = ([], empty_destination, Some AssertionError) \<and>
   (\<exists>evs. fst (bitbucket_to_github example_config example_date_parser example_bexport
              sequential_gimport example_cmap example_args empty_destination) =
           Print ''Migrate bitbucket attachments to github...'' [] # evs)"
proof -
  have 1: "map_of (KNOWN_ISSUES_COUNT_MAPPING unconfigured) (get_repo_full_name example_bexport) \<noteq>
             Some (int (length (get_issues example_bexport)))"
    by (simp add: unconfigured_def)
  have 2: "map_of (KNOWN_ISSUES_COUNT_MAPPING example_config) (get_repo_full_name example_bexport) =
             Some (int (length (get_issues example_bexport)))"
    by (simp add: example_config_def example_bexport_def)
  have 3: "skip_attachments example_args = False"
    by (simp add: example_args_def)
  have a: "bitbucket_to_github unconfigured example_date_parser example_bexport sequential_gimport
     example_cmap example_args empty_destination = ([], empty_destination, Some AssertionError)"
    using 1 gate_aborts_before_any_write[where cfg = unconfigured and be = example_bexport and dp = example_date_parser
        and gi = sequential_gimport and cm = example_cmap and a = example_args
        and g = empty_destination]
    by blast
  have b: "\<exists>evs. fst (bitbucket_to_github example_config example_date_parser example_bexport
              sequential_gimport example_cmap example_args empty_destination) =
           (if skip_attachments example_args
            then Print ''Warning: migration of bitbucket attachments to github has been skipped.'' []
            else Print ''Migrate bitbucket attachments to github...'' []) # evs"
    using 2 gate_aborts_before_any_write[where cfg = example_config and be = example_bexport and dp = example_date_parser
        and gi = sequential_gimport and cm = example_cmap and a = example_args
        and g = empty_destination]
    by blast
  show ?thesis
    using a b by (simp add: 3)
qed

text \<open>
  Claim C2. Let the ids of the fetched issues be 1, 2, ... in this order, those of the
  pull requests likewise, and let the configured count be the number of issues (what the
  assertions of the run check). If preparation succeeds, \<^verbatim>\<open>issues_and_pulls\<close> holds one
  item for each issue and then one for each pull request; the item built from the
  \<open>i\<close>-th issue is enumerated at index \<open>i\<close>, and its \<open>upload_number\<close>, the 1-based
  position, is the issue's id; the item built from the \<open>j\<close>-th pull request follows
  the issues, and its \<open>upload_number\<close> is the pull request's id plus the offset.
\<close>

theorem unified_numbers:
  assumes ids: "map issue_id (get_issues be) = map int [1..<Suc (length (get_issues be))]"
    and pids: "map pull_id (get_pulls be) = map int [1..<Suc (length (get_pulls be))]"
    and cfg: "map_of (KNOWN_ISSUES_COUNT_MAPPING cfg) (get_repo_full_name be) = Some pulls_id_offset"
    and gate: "pulls_id_offset = int (length (get_issues be))"
    and prep1: "run_steps (prepare_issue cfg dp be gists a) (get_issues be) [] = (ev1, issues, None)"
    and prep2: "run_steps (prepare_pull cfg dp be cm a pulls_id_offset) (get_pulls be) issues =
                  (ev2, issues_and_pulls, None)"
  shows "length issues_and_pulls = length (get_issues be) + length (get_pulls be) \<and>
    (\<forall>i<length (get_issues be).
       (\<exists>d. construct_gissue_from_bissue cfg dp (get_issues be ! i) be gists a = Inr d \<and>
            enumerate 0 issues_and_pulls ! i = (i, ''issue'', d)) \<and>
       upload_number i = issue_id (get_issues be ! i)) \<and>
    (\<forall>j<length (get_pulls be).
       (\<exists>td. construct_gissue_or_gpull_from_bpull cfg dp (get_pulls be ! j) be cm a = Inr td \<and>
             enumerate 0 issues_and_pulls ! (length (get_issues be) + j) =
               (length (get_issues be) + j, td)) \<and>
       upload_number (length (get_issues be) + j) = pull_id (get_pulls be ! j) + pulls_id_offset)"
proof -
  let ?bs = "get_issues be" and ?ps = "get_pulls be"
  obtain ds where ds: "issues = map (Pair ''issue'') ds"
    "map (\<lambda>b. construct_gissue_from_bissue cfg dp b be gists a) ?bs = map Inr ds"
    using prepare_issues_result[OF prep1] by auto
  obtain tds where tds: "issues_and_pulls = issues @ tds"
    "map (\<lambda>p. construct_gissue_or_gpull_from_bpull cfg dp p be cm a) ?ps = map Inr tds"
    using prepare_pulls_result[OF prep2] by auto
  have lds: "length ds = length ?bs" using ds(2) by (metis length_map)
  have ltds: "length tds = length ?ps" using tds(2) by (metis length_map)
  have len: "length issues_and_pulls = length ?bs + length ?ps"
    by (simp add: tds(1) ds(1) lds ltds)
  have issue: "(\<exists>d. construct_gissue_from_bissue cfg dp (?bs ! i) be gists a = Inr d \<and>
            enumerate 0 issues_and_pulls ! i = (i, ''issue'', d)) \<and>
       upload_number i = issue_id (?bs ! i)" if i: "i < length ?bs" for i
  proof -
    have c: "construct_gissue_from_bissue cfg dp (?bs ! i) be gists a = Inr (ds ! i)"
      using map_eq_nth[OF ds(2) i] by simp
    have e: "enumerate 0 issues_and_pulls ! i = (i, ''issue'', ds ! i)"
      using i by (simp add: nth_enumerate_eq len tds(1) ds(1) nth_append lds)
    have "issue_id (?bs ! i) = map issue_id ?bs ! i" using i by simp
    also have "\<dots> = int (i + 1)" unfolding ids using i by (simp del: upt_Suc)
    finally have n: "upload_number i = issue_id (?bs ! i)" by (simp add: upload_number_def)
    show ?thesis using c e n by blast
  qed
  have pull: "(\<exists>td. construct_gissue_or_gpull_from_bpull cfg dp (?ps ! j) be cm a = Inr td \<and>
             enumerate 0 issues_and_pulls ! (length ?bs + j) = (length ?bs + j, td)) \<and>
       upload_number (length ?bs + j) = pull_id (?ps ! j) + pulls_id_offset"
    if j: "j < length ?ps" for j
  proof -
    have c: "construct_gissue_or_gpull_from_bpull cfg dp (?ps ! j) be cm a = Inr (tds ! j)"
      using map_eq_nth[OF tds(2) j] by simp
    have e: "enumerate 0 issues_and_pulls ! (length ?bs + j) = (length ?bs + j, tds ! j)"
      using j by (simp add: nth_enumerate_eq len tds(1) ds(1) nth_append lds ltds)
    have "pull_id (?ps ! j) = map pull_id ?ps ! j" using j by simp
    also have "\<dots> = int (j + 1)" unfolding pids using j by (simp del: upt_Suc)
    finally have n: "upload_number (length ?bs + j) = pull_id (?ps ! j) + pulls_id_offset"
      by (simp add: upload_number_def gate)
    show ?thesis using c e n by blast
  qed
  show ?thesis using len issue pull by blast
qed

text \<open>
  The theorem at the example repository, with one issue and one pull request: the issue
  is uploaded as number 1, the pull request as number 2.
\<close>

theorem unified_numbers_witness:
  "map issue_id (get_issues example_bexport) =
     map int [1..<Suc (length (get_issues example_bexport))] \<and>
   map pull_id (get_pulls example_bexport) =
     map int [1..<Suc (length (get_pulls example_bexport))] \<and>
   (\<exists>ev1 issues ev2 issues_and_pulls.
      run_steps (prepare_issue example_config example_date_parser example_bexport (\<lambda>i. None)
                   example_args) (get_issues example_bexport) [] =
        (ev1 :: int event list, issues, None) \<and>
      run_steps (prepare_pull example_config example_date_parser example_bexport example_cmap
                   example_args 1) (get_pulls example_bexport) issues =
        (ev2 :: int event list, issues_and_pulls, None) \<and>
      length issues_and_pulls = 2 \<and>
      upload_number 0 = issue_id (get_issues example_bexport ! 0) \<and>
      upload_number 1 = pull_id (get_pulls example_bexport ! 0) + 1)"
proof -
  have l: "get_issues example_bexport = [example_issue]" "get_pulls example_bexport = [example_pull]"
    by (simp_all add: example_bexport_def)
  have ids: "map issue_id (get_issues example_bexport) =
     map int [1..<Suc (length (get_issues example_bexport))]"
    by (simp add: l example_issue_def)
  have pids: "map pull_id (get_pulls example_bexport) =
     map int [1..<Suc (length (get_pulls example_bexport))]"
    by (simp add: l example_pull_def)
  have cfg: "map_of (KNOWN_ISSUES_COUNT_MAPPING example_config) (get_repo_full_name example_bexport) =
     Some 1"
    by (simp add: example_config_def example_bexport_def)
  have gate: "(1::int) = int (length (get_issues example_bexport))"
    by (simp add: l)
  obtain d1 where c1: "construct_gissue_from_bissue example_config example_date_parser example_issue
         example_bexport (\<lambda>i. None) example_args = Inr d1"
    using ex_issue_ok by blast
  obtain d2 where c2: "construct_gissue_or_gpull_from_bpull example_config example_date_parser
         example_pull example_bexport example_cmap example_args = Inr (''pull'', d2)"
    using ex_pull_ok by blast
  have p1: "run_steps (prepare_issue example_config example_date_parser example_bexport (\<lambda>i. None)
                   example_args) (get_issues example_bexport) [] =
        ([Print ''Prepare github issue #{} from bitbucket issue...'' [str_int (issue_id example_issue)]]
           :: int event list, [(''issue'', d1)], None)"
    by (simp add: l prepare_issue_def c1 del: str_int_def)
  have p2: "run_steps (prepare_pull example_config example_date_parser example_bexport example_cmap
                   example_args 1) (get_pulls example_bexport) [(''issue'', d1)] =
        ([Print ''Prepare github issue #{} from bitbucket pull request...''
            [str_int (pull_id example_pull + 1)]] :: int event list,
         [(''issue'', d1), (''pull'', d2)], None)"
    by (simp add: l prepare_pull_def c2)
  from unified_numbers[OF ids pids cfg gate p1 p2]
  have "length [(''issue'', d1), (''pull'', d2)] = 2 \<and>
        upload_number 0 = issue_id (get_issues example_bexport ! 0) \<and>
        upload_number (length (get_issues example_bexport) + 0) =
          pull_id (get_pulls example_bexport ! 0) + 1"
    by (simp add: l)
  then show ?thesis
    using ids pids p1 p2 by (auto simp: l)
qed

text \<open>
  Claim C3. The bracketed text \<^verbatim>\<open>[issue #4 of X]\<close> passes through
  \<open>replace_implicit_links_to_issues\<close> unchanged, under every configuration. But so does
  \<^verbatim>\<open>see issue #4\<close>: the pattern ends in the two characters \<^verbatim>\<open>/i\<close>, which the text does
  not hold, so the reference is not rewritten. With these two characters behind the
  number it is rewritten, to a link into the current repository.
\<close>

theorem implicit_issue_pattern_wants_slash_i:
  "replace_implicit_links_to_issues cfg a ''[issue #4 of X]'' = ''[issue #4 of X]'' \<and>
   replace_implicit_links_to_issues cfg a ''see issue #4'' = ''see issue #4'' \<and>
   replace_implicit_links_to_issues example_config example_args ''see issue #4/i'' =
     ''see https://github.com/viperproject/silver/issues/4''"
  by (intro conjI bracketed_unchanged see_issue_unchanged see_issue_slash_i)

text \<open>
  Claim C4. \<open>replace_implicit_links_to_prs\<close> returns \<^verbatim>\<open>pull request #3\<close> as it is, under
  every configuration: its pattern, too, ends in \<^verbatim>\<open>/i\<close>. On \<^verbatim>\<open>pull request #3/i\<close> the
  pattern matches, and the replacement adds the text of the number to the issue count:
  when the current repository has a configured count the pass raises \<^verbatim>\<open>TypeError\<close>, and
  it returns the text as it is otherwise. It never builds a link.
\<close>

theorem implicit_pr_reference_unchanged_or_raises:
  "replace_implicit_links_to_prs cfg a ''pull request #3'' = Inr ''pull request #3'' \<and>
   replace_implicit_links_to_prs cfg a ''pull request #3/i'' =
     (case map_of (KNOWN_ISSUES_COUNT_MAPPING cfg) (bitbucket_repository a) of
        None \<Rightarrow> Inr ''pull request #3/i''
      | Some issues_count \<Rightarrow> Inl TypeError) \<and>
   replace_implicit_links_to_prs example_config example_args ''pull request #3/i'' =
     Inl TypeError"
  by (intro conjI pull_request_unchanged implicit_pr_reference_slash_i
      implicit_pr_reference_raises)

text \<open>
  Claim C5, as stated, fails: \<open>map_content\<close> is not stable under re-application. The
  mention pass puts \<^verbatim>\<open>ignore_\<close> before every handle it finds, also before one that it
  wrote itself, so \<^verbatim>\<open>@bob\<close> becomes \<^verbatim>\<open>@ignore_bob\<close> and that becomes
  \<^verbatim>\<open>@ignore_ignore_bob\<close>.
\<close>

theorem map_content_not_stable:
  "\<not> (\<forall>cfg a body out. map_content cfg a body = Inr out \<longrightarrow> map_content cfg a out = Inr out)"
proof
  assume "\<forall>cfg a body out. map_content cfg a body = Inr out \<longrightarrow> map_content cfg a out = Inr out"
  then have "map_content example_config example_args ''@ignore_bob'' = Inr ''@ignore_bob''"
    using mention_rewritten_twice by blast
  then show False using mention_rewritten_twice by simp
qed

text \<open>
  Claim C5, amended. A destination-form link, \<^verbatim>\<open>https://github.com/R/issues/N\<close> or
  \<^verbatim>\<open>https://github.com/R/pull/N\<close> with a repository name \<open>R\<close> of letters, digits,
  hyphens, underscores, dots and slashes and a number \<open>N\<close> of digits, is returned by
  \<open>map_content\<close> as it is, under every configuration: the link passes match source-form
  patterns only, and such a link holds no mention.
\<close>

theorem destination_links_stable:
  assumes "list_all is_repo_char grepo" and "list_all is_digit nr"
  shows "map_content cfg a (''https://github.com/'' @ grepo @ ''/issues/'' @ nr) =
           Inr (''https://github.com/'' @ grepo @ ''/issues/'' @ nr) \<and>
         map_content cfg a (''https://github.com/'' @ grepo @ ''/pull/'' @ nr) =
           Inr (''https://github.com/'' @ grepo @ ''/pull/'' @ nr)"
  using repo_char_facts[OF assms(1)] digit_facts[OF assms(2)]
  by (intro conjI dest_link_stable) simp_all

text \<open>
The theorem at the links to number 12 of \<^verbatim>\<open>viperproject/silver\<close>.
\<close>

theorem destination_links_stable_witness:
  "list_all is_repo_char ''viperproject/silver'' \<and> list_all is_digit ''12'' \<and>
   map_content example_config example_args ''https://github.com/viperproject/silver/issues/12'' =
     Inr ''https://github.com/viperproject/silver/issues/12'' \<and>
   map_content example_config example_args ''https://github.com/viperproject/silver/pull/12'' =
     Inr ''https://github.com/viperproject/silver/pull/12''"
proof -
  have 1: "list_all is_repo_char ''viperproject/silver''"
    by (simp add: is_repo_char_def is_ascii_letter_def is_digit_def)
  have 2: "list_all is_digit ''12''"
    by (simp add: is_digit_def)
  show ?thesis
    using 1 2 destination_links_stable[OF 1 2, of example_config example_args] by simp
qed

text \<open>
  Claim C6. Let a body hold the mention \<^verbatim>\<open>@h\<close>: \<open>h\<close> a nonempty run of handle
  characters, at the start of the body or behind a character that is no word character,
  and followed by the end of the body or by a character that is no handle character.
  Then \<open>replace_links_to_users\<close> rewrites the text before the mention as it would on its
  own, writes \<^verbatim>\<open>@ignore_\<close> and then the mapped handle, or \<open>h\<close> itself when the user map
  has no entry for it, and goes on behind the mention. The same holds for a handle in
  braces. So \<^verbatim>\<open>@alice\<close> becomes \<^verbatim>\<open>@ignore_alice\<close> without an entry and \<^verbatim>\<open>@ignore_abot\<close>
  when \<^verbatim>\<open>alice\<close> maps to \<^verbatim>\<open>abot\<close>, and no mention stays in its source form.
\<close>

theorem every_mention_gets_ignore_prefix:
  assumes "pre = [] \<or> \<not> is_word (last pre)"
  shows "(h \<noteq> [] \<and> list_all is_handle_char h \<and> (post = [] \<or> \<not> is_handle_char (hd post)) \<longrightarrow>
          replace_links_to_users cfg (pre @ ''@'' @ h @ post) =
            replace_links_to_users cfg pre @ ''@ignore_'' @
            (case map_of (USER_MAPPING cfg) h of None \<Rightarrow> h | Some guser \<Rightarrow> guser) @
            re_sub MENTION_RE (replace_user cfg) 0 (Some (last h)) post) \<and>
         (b \<noteq> [] \<and> list_all is_braced_char b \<longrightarrow>
          replace_links_to_users cfg (pre @ (''@'' @ ''{'') @ b @ ''}'' @ post) =
            replace_links_to_users cfg pre @ ''@ignore_'' @
            (case map_of (USER_MAPPING cfg) (''{'' @ b @ ''}'') of
               None \<Rightarrow> ''{'' @ b @ ''}'' | Some guser \<Rightarrow> guser) @
            re_sub MENTION_RE (replace_user cfg) 0 (Some CHR ''}'') post)"
proof (intro conjI impI)
  note pos = mention_position_pre[OF assms]
  {
    assume h: "h \<noteq> [] \<and> list_all is_handle_char h \<and> (post = [] \<or> \<not> is_handle_char (hd post))"
    have "MENTION_RE (if pre = [] then None else Some (last pre)) (CHR ''@'' # h @ post) =
            Some \<lparr>group0 = CHR ''@'' # h, group1 = Some h, group2 = None\<rparr>"
      using pos h by (intro MENTION_RE_handle) auto
    from mention_rewritten[OF _ this, of cfg] h
    show "replace_links_to_users cfg (pre @ ''@'' @ h @ post) =
            replace_links_to_users cfg pre @ ''@ignore_'' @
            (case map_of (USER_MAPPING cfg) h of None \<Rightarrow> h | Some guser \<Rightarrow> guser) @
            re_sub MENTION_RE (replace_user cfg) 0 (Some (last h)) post"
      by (simp add: lookup_user_def split: option.splits)
  }
  {
    assume b: "b \<noteq> [] \<and> list_all is_braced_char b"
    have "MENTION_RE (if pre = [] then None else Some (last pre))
            (CHR ''@'' # (CHR ''{'' # b @ ''}'') @ post) =
            Some \<lparr>group0 = CHR ''@'' # CHR ''{'' # b @ ''}'', group1 = Some (CHR ''{'' # b @ ''}''),
                  group2 = None\<rparr>"
      using pos b by (intro MENTION_RE_braced) auto
    from mention_rewritten[OF _ this, of cfg]
    show "replace_links_to_users cfg (pre @ (''@'' @ ''{'') @ b @ ''}'' @ post) =
            replace_links_to_users cfg pre @ ''@ignore_'' @
            (case map_of (USER_MAPPING cfg) (''{'' @ b @ ''}'') of
               None \<Rightarrow> ''{'' @ b @ ''}'' | Some guser \<Rightarrow> guser) @
            re_sub MENTION_RE (replace_user cfg) 0 (Some CHR ''}'') post"
      by (simp add: lookup_user_def split: option.splits)
  }
qed

text \<open>
  The theorem at a body with a mapped, an unmapped and a braced mention.
\<close>

theorem every_mention_gets_ignore_prefix_witness:
  "replace_links_to_users example_config (''hi @alice, @bob and @'' @ ''{team:1}!'') =
     ''hi @ignore_abot, @ignore_bob and @ignore_{team:1}!''"
proof -
  have 1: "''hi '' = [] \<or> \<not> is_word (last ''hi '')"
    by (simp add: is_word_def is_ascii_letter_def is_digit_def is_latin1_alnum_def)
  have 2: "''alice'' \<noteq> [] \<and> list_all is_handle_char ''alice'' \<and>
           (('', @bob and @'' @ ''{team:1}!'') = [] \<or> \<not> is_handle_char (hd ('', @bob and @'' @ ''{team:1}!'')))"
    by (simp add: is_handle_char_def is_ascii_letter_def is_digit_def)
  have "replace_links_to_users example_config (''hi '' @ ''@'' @ ''alice'' @ ('', @bob and @'' @ ''{team:1}!'')) =
            replace_links_to_users example_config ''hi '' @ ''@ignore_'' @
            (case map_of (USER_MAPPING example_config) ''alice'' of None \<Rightarrow> ''alice'' | Some guser \<Rightarrow> guser) @
            re_sub MENTION_RE (replace_user example_config) 0 (Some (last ''alice'')) ('', @bob and @'' @ ''{team:1}!'')"
    using every_mention_gets_ignore_prefix[OF 1, of "''alice''" "('', @bob and @'' @ ''{team:1}!'')" example_config] 2 by blast
  then show ?thesis
    by (simp add: replace_links_to_users_def MENTION_RE_def mention_position_def
        is_handle_char_def is_braced_char_def is_ascii_letter_def is_digit_def is_word_def
        is_latin1_alnum_def replace_user_def lookup_user_def format_opt_def matched_def
        example_config_def)
qed

text \<open>
  Claim C7, as stated, fails: an item that exists at the number is not always updated.
  The upload looks an item of type \<^verbatim>\<open>issue\<close> up among the existing issues only and an
  item of type \<^verbatim>\<open>pull\<close> among the existing pull requests only. Here the destination
  holds an issue at number 1 and the source is one open pull request: the run issues a
  create call for number 1, and no update.
\<close>

theorem create_over_existing_item:
  "existing_issues sequential_gimport occupied_destination 1 = Some 1 \<and>
   (\<exists>data. filter is_call
      (fst (bitbucket_to_github pulls_only_config example_date_parser pulls_only_bexport
              sequential_gimport example_cmap example_args occupied_destination)) =
      [Call_create_pull_with_comments data])"
proof -
  have e: "existing_issues sequential_gimport occupied_destination 1 = Some 1"
    "existing_pulls sequential_gimport occupied_destination 1 = None"
    by (simp_all add: sg_simps occupied_destination_def)
  have gate: "map_of (KNOWN_ISSUES_COUNT_MAPPING pulls_only_config)
      (get_repo_full_name pulls_only_bexport) = Some 0"
    "get_issues pulls_only_bexport = []"
    by (simp_all add: pulls_only_config_def pulls_only_bexport_def example_bexport_def)
  have A: "migrate_attachments pulls_only_bexport sequential_gimport example_args occupied_destination =
      ([Print ''Migrate bitbucket attachments to github...'' []],
       (occupied_destination, (\<lambda>i. None)), None)"
    by (simp add: migrate_attachments_def gate example_args_def)
  obtain evP :: "int event list" and d where
    P: "prepare pulls_only_config example_date_parser pulls_only_bexport example_cmap example_args
       0 (\<lambda>i. None) = (evP, [(''pull'', d)], None)"
    using ex_prepare_pulls_only[of "\<lambda>i. None", where 'x = int] by blast
  have "list_all (\<lambda>e. \<not> is_call e)
          (fst (prepare pulls_only_config example_date_parser pulls_only_bexport example_cmap
                  example_args 0 (\<lambda>i. None) :: int event list \<times> _))"
    by (rule prepare_prints) simp
  then have cP: "list_all (\<lambda>e. \<not> is_call e) evP"
    unfolding P by simp
  have U: "upload sequential_gimport [(''pull'', d)] occupied_destination =
      ([Print ''Upload github issues...'' [],
        Print ''Upload github issue or pull request #{}... [rate limiting: {}]''
          [str_int 1, str_int 5000],
        Print ''Create github pull request #{}...'' [str_int 1],
        Call_create_pull_with_comments d],
       occupied_destination\<lparr>dest_pulls :=
         dest_pulls occupied_destination @ [(next_number occupied_destination, d)]\<rparr>, None)"
    by (simp add: upload_def upload_item_def upload_number_def e sg_simps(1,6) Let_def
        del: str_nat.simps)
  have "filter is_call
      (fst (bitbucket_to_github pulls_only_config example_date_parser pulls_only_bexport
              sequential_gimport example_cmap example_args occupied_destination)) =
      [Call_create_pull_with_comments d]"
    using cP
    by (simp add: bitbucket_to_github_def gate migrate_def A P U final_checks_def
        filter_empty_conv list_all_iff del: str_nat.simps)
  then show ?thesis using e(1) by blast
qed

text \<open>
  Claim C7, amended. For the item at an index, with \<open>upload_number\<close> its number: an item
  of type \<^verbatim>\<open>issue\<close> is updated when the issues fetched at the start of the run hold that
  number, and created as an issue otherwise; an item of type \<^verbatim>\<open>pull\<close> is updated when the
  pull requests fetched at the start hold that number, and created as a pull request
  otherwise; each item gets exactly one call. Hence, on the destination with sequential
  numbers: when a first run against the empty destination completes, a second run
  against the destination it left completes too, issues no create call, and leaves the
  count of items as it was.
\<close>

theorem reconciler_updates_existing_of_same_kind:
  "(type = ''issue'' \<longrightarrow>
      filter is_call (fst (upload_item gi eis eps (index, type, data) g)) =
        (case eis (upload_number index) of
           Some existing \<Rightarrow> [Call_update_issue_with_comments existing data]
         | None \<Rightarrow> [Call_create_issue_with_comments data])) \<and>
   (type = ''pull'' \<longrightarrow>
      filter is_call (fst (upload_item gi eis eps (index, type, data) g)) =
        (case eps (upload_number index) of
           Some existing \<Rightarrow> [Call_update_issue_with_comments existing data]
         | None \<Rightarrow> [Call_create_pull_with_comments data])) \<and>
   (bitbucket_to_github cfg dp be sequential_gimport cm a empty_destination = (ev1, d1, None) \<longrightarrow>
      (\<exists>ev2 d2. bitbucket_to_github cfg dp be sequential_gimport cm a d1 = (ev2, d2, None) \<and>
         filter is_create ev2 = [] \<and>
         get_issues_count sequential_gimport d2 + get_pulls_count sequential_gimport d2 =
         get_issues_count sequential_gimport d1 + get_pulls_count sequential_gimport d1))"
  using upload_item_calls[of type gi eis eps index data g]
    second_run_updates_only[of cfg dp be cm a ev1 d1]
  by blast

text \<open>
  The theorem at the example repository: the first run completes, and the second run
  only updates.
\<close>

theorem reconciler_updates_existing_of_same_kind_witness:
  "\<exists>ev1 d1 ev2 d2.
     bitbucket_to_github example_config example_date_parser example_bexport sequential_gimport
       example_cmap example_args empty_destination = (ev1, d1, None) \<and>
     bitbucket_to_github example_config example_date_parser example_bexport sequential_gimport
       example_cmap example_args d1 = (ev2, d2, None) \<and>
     filter is_create ev2 = [] \<and>
     get_issues_count sequential_gimport d2 + get_pulls_count sequential_gimport d2 =
     get_issues_count sequential_gimport d1 + get_pulls_count sequential_gimport d1"
proof -
  obtain ev1 d1 where 1: "bitbucket_to_github example_config example_date_parser example_bexport
      sequential_gimport example_cmap example_args empty_destination = (ev1, d1, None)"
    using ex_run_completes by blast
  have "bitbucket_to_github example_config example_date_parser example_bexport
      sequential_gimport example_cmap example_args empty_destination = (ev1, d1, None) \<longrightarrow>
      (\<exists>ev2 d2. bitbucket_to_github example_config example_date_parser example_bexport
         sequential_gimport example_cmap example_args d1 = (ev2, d2, None) \<and>
         filter is_create ev2 = [] \<and>
         get_issues_count sequential_gimport d2 + get_pulls_count sequential_gimport d2 =
         get_issues_count sequential_gimport d1 + get_pulls_count sequential_gimport d1)"
    by (rule reconciler_updates_existing_of_same_kind[where cfg = example_config and dp = example_date_parser and be = example_bexport
      and cm = example_cmap and a = example_args and ?ev1.0 = ev1 and ?d1.0 = d1,
      THEN conjunct2, THEN conjunct2])
  then obtain ev2 d2 where 2: "bitbucket_to_github example_config example_date_parser example_bexport
         sequential_gimport example_cmap example_args d1 = (ev2, d2, None)"
    and 3: "filter is_create ev2 = []"
    and 4: "get_issues_count sequential_gimport d2 + get_pulls_count sequential_gimport d2 =
         get_issues_count sequential_gimport d1 + get_pulls_count sequential_gimport d1"
    using 1 by (elim impE exE conjE)
  show ?thesis
    by (intro exI[of _ ev1] exI[of _ d1] exI[of _ ev2] exI[of _ d2] conjI 1 2 3 4)
qed

text \<open>
  Claim C8. Whether a run raises does not depend on what the destination's two counting
  methods return: the run with any other pair of counting methods ends with the same
  exception, or with none as well. And in a run that completes, the line
  \<^verbatim>\<open>Error: the number of Github issues and pull requests seems to be wrong.\<close> is among
  the events exactly when the number of issues and pull requests of the source differs
  from the destination's counts at the end of the run.
\<close>

theorem count_mismatch_reported_not_raised:
  "snd (snd (bitbucket_to_github cfg dp be (gi\<lparr>get_issues_count := ic, get_pulls_count := pc\<rparr>) cm a g)) =
     snd (snd (bitbucket_to_github cfg dp be gi cm a g)) \<and>
   (bitbucket_to_github cfg dp be gi cm a g = (evs, g', None) \<longrightarrow>
      (count_error \<in> set evs \<longleftrightarrow>
         int (length (get_issues be)) + int (length (get_pulls be)) \<noteq>
         get_issues_count gi g' + get_pulls_count gi g'))"
proof (intro conjI impI)
  show "snd (snd (bitbucket_to_github cfg dp be (gi\<lparr>get_issues_count := ic, get_pulls_count := pc\<rparr>) cm a g)) =
     snd (snd (bitbucket_to_github cfg dp be gi cm a g))"
  proof (cases "map_of (KNOWN_ISSUES_COUNT_MAPPING cfg) (get_repo_full_name be)")
    case None
    then show ?thesis by (simp add: bitbucket_to_github_def)
  next
    case (Some n)
    show ?thesis
    proof (cases "n = int (length (get_issues be))")
      case True
      then show ?thesis
        using migrate_counts_irrelevant[where cfg=cfg and dp=dp and be=be and gi=gi and ic=ic and pc=pc and cm=cm and a=a and n=n and g=g]
        by (simp add: bitbucket_to_github_def Some)
    next
      case False
      then show ?thesis by (simp add: bitbucket_to_github_def Some)
    qed
  qed
next
  assume r: "bitbucket_to_github cfg dp be gi cm a g = (evs, g', None)"
  have "\<exists>n. migrate cfg dp be gi cm a n g = (evs, g', None)"
  proof (cases "map_of (KNOWN_ISSUES_COUNT_MAPPING cfg) (get_repo_full_name be)")
    case None
    then show ?thesis using r by (simp add: bitbucket_to_github_def)
  next
    case (Some n)
    then show ?thesis using r
      by (cases "n = int (length (get_issues be))") (auto simp: bitbucket_to_github_def)
  qed
  then obtain n where m: "migrate cfg dp be gi cm a n g = (evs, g', None)" ..
  obtain evs0 where e: "evs = evs0 @ final_checks be gi g'" and n: "count_error \<notin> set evs0"
    using migrate_completes[OF m] by blast
  have "count_error \<in> set evs \<longleftrightarrow> count_error \<in> set (final_checks be gi g')"
    unfolding e using n by simp
  then show "count_error \<in> set evs \<longleftrightarrow>
         int (length (get_issues be)) + int (length (get_pulls be)) \<noteq>
         get_issues_count gi g' + get_pulls_count gi g'"
    unfolding final_checks_count_error .
qed

text \<open>
The theorem at the run of the example repository against the empty destination.
\<close>

theorem count_mismatch_reported_not_raised_witness:
  "\<exists>evs g'.
     bitbucket_to_github example_config example_date_parser example_bexport sequential_gimport
       example_cmap example_args empty_destination = (evs, g', None) \<and>
     (count_error \<in> set evs) =
       (int (length (get_issues example_bexport)) + int (length (get_pulls example_bexport)) \<noteq>
        get_issues_count sequential_gimport g' + get_pulls_count sequential_gimport g')"
proof -
  obtain ev1 d1 where 1: "bitbucket_to_github example_config example_date_parser example_bexport
      sequential_gimport example_cmap example_args empty_destination = (ev1, d1, None)"
    using ex_run_completes by blast
  have "bitbucket_to_github example_config example_date_parser example_bexport
      sequential_gimport example_cmap example_args empty_destination = (ev1, d1, None) \<longrightarrow>
      (count_error \<in> set ev1) =
       (int (length (get_issues example_bexport)) + int (length (get_pulls example_bexport)) \<noteq>
        get_issues_count sequential_gimport d1 + get_pulls_count sequential_gimport d1)"
    by (rule count_mismatch_reported_not_raised[where cfg = example_config and dp = example_date_parser and be = example_bexport
      and gi = sequential_gimport and cm = example_cmap and a = example_args
      and g = empty_destination and evs = ev1 and g' = d1, THEN conjunct2])
  then have 2: "(count_error \<in> set ev1) =
       (int (length (get_issues example_bexport)) + int (length (get_pulls example_bexport)) \<noteq>
        get_issues_count sequential_gimport d1 + get_pulls_count sequential_gimport d1)"
    using 1 by (elim impE)
  show ?thesis
    by (intro exI[of _ ev1] exI[of _ d1] conjI 1 2)
qed

text \<open>
  Claim C9. When the source repository is missing from the issue-count map or from the
  repository-name map, \<open>check\<close> prints the line that reports it, and then raises
  \<^verbatim>\<open>KeyError\<close>: the comparisons that follow subscript the maps with the missing key. The
  check does not go on.
\<close>

theorem check_raises_on_missing_repository:
  assumes "map_of (KNOWN_ISSUES_COUNT_MAPPING cfg) (get_repo_full_name be) = None \<or>
           map_of (KNOWN_REPO_MAPPING cfg) (get_repo_full_name be) = None"
  shows "snd (check cfg be gi a g) = Some KeyError \<and>
         (map_of (KNOWN_ISSUES_COUNT_MAPPING cfg) (get_repo_full_name be) = None \<longrightarrow>
            Print ''Error: bitbucket repository '{}' is not configured in KNOWN_ISSUES_COUNT_MAPPING.''
              [get_repo_full_name be] \<in> set (fst (check cfg be gi a g))) \<and>
         (map_of (KNOWN_REPO_MAPPING cfg) (get_repo_full_name be) = None \<longrightarrow>
            Print ''Error: bitbucket repository '{}' is not configured in KNOWN_REPO_MAPPING.''
              [get_repo_full_name be] \<in> set (fst (check cfg be gi a g)))"
proof -
  obtain ev where t: "check_tables cfg be gi g = (ev, Some KeyError)"
    using check_tables_missing[OF assms, of gi g] by (cases "check_tables cfg be gi g") auto
  have c: "check cfg be gi a g = (check_counts be gi g @ ev, Some KeyError)"
    using t by (rule check_raises)
  show ?thesis
    using check_tables_reports[of cfg be gi g] unfolding c t by simp
qed

text \<open>
The theorem at the example repository without a configured issue count.
\<close>

theorem check_raises_on_missing_repository_witness:
  "snd (check unconfigured example_bexport sequential_gimport example_args empty_destination) =
     Some KeyError \<and>
   Print ''Error: bitbucket repository '{}' is not configured in KNOWN_ISSUES_COUNT_MAPPING.''
     [''viperproject/silver''] \<in>
     set (fst (check unconfigured example_bexport sequential_gimport example_args empty_destination))"
proof -
  have h: "map_of (KNOWN_ISSUES_COUNT_MAPPING unconfigured) (get_repo_full_name example_bexport) = None \<or>
           map_of (KNOWN_REPO_MAPPING unconfigured) (get_repo_full_name example_bexport) = None"
    by (simp add: unconfigured_def)
  have n: "get_repo_full_name example_bexport = ''viperproject/silver''"
    by (simp add: example_bexport_def)
  show ?thesis
    using check_raises_on_missing_repository[OF h, of sequential_gimport example_args empty_destination] h
    by (simp add: n unconfigured_def)
qed

text \<open>
  Claim C10. For a pull request whose source has neither a repository nor a commit,
  \<open>construct_gpull_request_body\<close> raises, whatever the other values are. When the dates
  parse and the source branch and the destination's repository, branch and commit are
  there, so that nothing else fails before, the exception is \<^verbatim>\<open>UnboundLocalError\<close>, from
  reading \<^verbatim>\<open>source_ghash\<close>.
\<close>

theorem pull_body_raises_without_source:
  assumes "repository (source bpull) = None" and "commit (source bpull) = None"
  shows "(\<exists>e. construct_gpull_request_body cfg dp bpull be cm a = Inl e) \<and>
         (\<forall>created_on updated_on b r db dc.
            dp (pull_created_on bpull) = Inr created_on \<and>
            dp (pull_updated_on bpull) = Inr updated_on \<and>
            branch (source bpull) = Some b \<and>
            repository (destination bpull) = Some r \<and>
            branch (destination bpull) = Some db \<and>
            commit (destination bpull) = Some dc \<longrightarrow>
            construct_gpull_request_body cfg dp bpull be cm a = Inl UnboundLocalError)"
proof (intro conjI allI impI)
  show "\<exists>e. construct_gpull_request_body cfg dp bpull be cm a = Inl e"
    unfolding construct_gpull_request_body_def Let_def
    by (rule bind_err_Inl, rule bind_err_Inl, rule after_source_unassigned[OF assms])
next
  fix created_on updated_on b r db dc
  assume h: "dp (pull_created_on bpull) = Inr created_on \<and>
            dp (pull_updated_on bpull) = Inr updated_on \<and>
            branch (source bpull) = Some b \<and>
            repository (destination bpull) = Some r \<and>
            branch (destination bpull) = Some db \<and>
            commit (destination bpull) = Some dc"
  have d: "destination_section cfg cm (destination bpull) None = Inl UnboundLocalError"
    using h by (simp add: destination_section_unassigned)
  show "construct_gpull_request_body cfg dp bpull be cm a = Inl UnboundLocalError"
    unfolding construct_gpull_request_body_def Let_def
    using h d by (simp add: source_section_unassigned[OF assms])
qed

text \<open>
The theorem at the example pull request, taken from a branch of the repository.
\<close>

theorem pull_body_raises_without_source_witness:
  "repository (source branch_pull) = None \<and> commit (source branch_pull) = None \<and>
   construct_gpull_request_body example_config example_date_parser branch_pull example_bexport
     example_cmap example_args = Inl UnboundLocalError"
proof -
  have 1: "repository (source branch_pull) = None" and 2: "commit (source branch_pull) = None"
    by (simp_all add: branch_pull_def)
  have d: "example_date_parser (pull_created_on branch_pull) = Inr ''2012-11-27 10:00''"
    "example_date_parser (pull_updated_on branch_pull) = Inr ''2012-11-27 10:00''"
    by (simp_all add: branch_pull_def example_pull_def ex_date2)
  have f: "branch (source branch_pull) = Some ''fix''"
    "repository (destination branch_pull) = Some ''viperproject/silver''"
    "branch (destination branch_pull) = Some ''default''"
    "commit (destination branch_pull) = Some ''def''"
    by (simp_all add: branch_pull_def example_pull_def)
  show ?thesis
    using 1 2 d f pull_body_raises_without_source[OF 1 2, of example_config example_date_parser example_bexport example_cmap
        example_args]
    by blast
qed

end
